theory Spec2Isabelle
  imports Complex_Main
begin

section \<open>Decoded JSON documents\<close>

text \<open>
  A rule document is what \<^verbatim>\<open>json.load\<close> returns: a tree of mappings, sequences and
  scalars. A Python \<^verbatim>\<open>dict\<close> keeps insertion order, so a mapping is an association
  list; a lookup reads the first entry of a key and a deletion removes every entry of it.
  A Python \<^verbatim>\<open>float\<close> is a finite rational, an infinity or a NaN.
\<close>

datatype pyfloat = FNum rat | FInf bool | FNaN

datatype json =
    JNull
  | JBool bool
  | JInt int
  | JFloat pyfloat
  | JStr string
  | JList "json list"
  | JObj "(string \<times> json) list"

type_synonym dict = "(string \<times> json) list"

text \<open>
  The exceptions the modelled code can raise on a decoded document. \<open>DanglingRef\<close> is not
  a Python exception: it marks a reference to no object of the store in the store model
  below, which a store built by \<^verbatim>\<open>json.load\<close> never holds.
\<close>

datatype error = TypeError | AttributeError | KeyError | ValueError | DanglingRef

subsection \<open>Python operations on decoded values\<close>

fun starts_with :: "string \<Rightarrow> string \<Rightarrow> bool" where
  "starts_with s [] = True"
| "starts_with [] (p # ps) = False"
| "starts_with (c # cs) (p # ps) = (c = p \<and> starts_with cs ps)"

text \<open>\<^verbatim>\<open>sub in s\<close> on two strings: \<open>sub\<close> occurs in \<open>s\<close> as a contiguous run.\<close>

fun substring_in :: "string \<Rightarrow> string \<Rightarrow> bool" where
  "substring_in sub [] = (sub = [])"
| "substring_in sub (c # cs) = (starts_with (c # cs) sub \<or> substring_in sub cs)"

definition dict_has :: "string \<Rightarrow> dict \<Rightarrow> bool" where
  "dict_has k d = (map_of d k \<noteq> None)"

definition dict_del :: "string \<Rightarrow> dict \<Rightarrow> dict" where
  "dict_del k d = filter (\<lambda>kv. fst kv \<noteq> k) d"

text \<open>\<^verbatim>\<open>d[k] = v\<close> for a key that \<open>d\<close> already has: the entry keeps its position.\<close>

definition dict_set :: "string \<Rightarrow> json \<Rightarrow> dict \<Rightarrow> dict" where
  "dict_set k v d = map (\<lambda>kv. if fst kv = k then (k, v) else kv) d"

text \<open>\<^verbatim>\<open>d.pop(k, None)\<close>, keeping the dictionary only.\<close>

definition dict_pop :: "string \<Rightarrow> dict \<Rightarrow> dict" where
  "dict_pop k d = dict_del k d"

text \<open>
  \<^verbatim>\<open>k in x\<close> for a string \<open>k\<close>: a key test on a mapping, an element test on a
  sequence (only the string \<open>k\<close> itself equals \<open>k\<close>), a substring test on a string, and
  a \<^verbatim>\<open>TypeError\<close> on every other value.
\<close>

fun py_contains :: "string \<Rightarrow> json \<Rightarrow> error + bool" where
  "py_contains k (JObj d) = Inr (dict_has k d)"
| "py_contains k (JList xs) = Inr (JStr k \<in> set xs)"
| "py_contains k (JStr s) = Inr (substring_in k s)"
| "py_contains k _ = Inl TypeError"

text \<open>\<^verbatim>\<open>x[k]\<close> for a string \<open>k\<close>: only a mapping can be indexed by a string.\<close>

fun py_getitem :: "json \<Rightarrow> string \<Rightarrow> error + json" where
  "py_getitem (JObj d) k = (case map_of d k of None \<Rightarrow> Inl KeyError | Some v \<Rightarrow> Inr v)"
| "py_getitem _ k = Inl TypeError"

text \<open>\<^verbatim>\<open>del x[k]\<close> for a string \<open>k\<close>, returning the value \<open>x\<close> has afterwards.\<close>

fun py_delitem :: "json \<Rightarrow> string \<Rightarrow> error + json" where
  "py_delitem (JObj d) k = (if dict_has k d then Inr (JObj (dict_del k d)) else Inl KeyError)"
| "py_delitem _ k = Inl TypeError"

text \<open>Writing a changed member back into the mapping that holds it.\<close>

fun py_setitem :: "json \<Rightarrow> string \<Rightarrow> json \<Rightarrow> json" where
  "py_setitem (JObj d) k v = JObj (dict_set k v d)"
| "py_setitem x k v = x"

section \<open>Normalization in the deployer: \<^verbatim>\<open>SecurityRuleDeployer.clean_rule_json\<close>\<close>

definition readonly_fields :: "string list" where
  "readonly_fields = [''id'', ''createdAt'', ''createdBy'', ''updatedAt'', ''updatedBy'']"

text \<open>
  The deep copy of a tree is the tree itself; the deletions below act on that copy. The
  nested \<^verbatim>\<open>del\<close> changes the \<^verbatim>\<open>recipients\<close> mapping inside the copy, which is
  written back through \<^verbatim>\<open>output\<close> here.
\<close>

definition clean_rule_json :: "dict \<Rightarrow> error + dict" where
  "clean_rule_json rule_data =
     (let cleaned_data = foldl (\<lambda>d field. dict_pop field d) rule_data readonly_fields in
      case map_of cleaned_data ''output'' of
        None \<Rightarrow> Inr cleaned_data
      | Some output \<Rightarrow>
          (case py_contains ''recipients'' output of
             Inl e \<Rightarrow> Inl e
           | Inr False \<Rightarrow> Inr cleaned_data
           | Inr True \<Rightarrow>
               (case py_getitem output ''recipients'' of
                  Inl e \<Rightarrow> Inl e
                | Inr recipients \<Rightarrow>
                    (case py_contains ''notificationEndpointIds'' recipients of
                       Inl e \<Rightarrow> Inl e
                     | Inr False \<Rightarrow> Inr cleaned_data
                     | Inr True \<Rightarrow>
                         (case py_delitem recipients ''notificationEndpointIds'' of
                            Inl e \<Rightarrow> Inl e
                          | Inr recipients' \<Rightarrow>
                              Inr (dict_set ''output''
                                     (py_setitem output ''recipients'' recipients')
                                     cleaned_data))))))"

text \<open>An exported rule, as the remote service returns it, and its normalization.\<close>

definition doc_exported :: dict where
  "doc_exported =
     [(''id'', JInt 17), (''title'', JStr ''Brute force''), (''createdAt'', JInt 1700000000),
      (''output'', JObj [(''recipients'',
          JObj [(''emails'', JList [JStr ''soc@example.com'']),
                (''notificationEndpointIds'', JList [JInt 3])])]),
      (''subComponents'', JList [JObj [(''id'', JInt 4), (''queryDefinition'', JObj [])]])]"

definition doc_cleaned :: dict where
  "doc_cleaned =
     [(''title'', JStr ''Brute force''),
      (''output'', JObj [(''recipients'', JObj [(''emails'', JList [JStr ''soc@example.com''])])]),
      (''subComponents'', JList [JObj [(''id'', JInt 4), (''queryDefinition'', JObj [])]])]"


section \<open>Normalization in the exporter: \<^verbatim>\<open>clean_rule\<close> of \<^verbatim>\<open>clean-rules.py\<close>\<close>

text \<open>
  \<^verbatim>\<open>clean_rule\<close> takes a shallow copy (\<^verbatim>\<open>rule.copy()\<close>) and then deletes keys of
  the members of \<^verbatim>\<open>subComponents\<close>, which the copy shares with its argument. What it
  does to its argument therefore depends on aliasing, and the model keeps an explicit
  store: mappings and sequences are objects at addresses, a value is a scalar or a
  reference to an object, and \<^verbatim>\<open>del\<close> updates the store.
\<close>

type_synonym addr = nat

datatype pval = PNull | PBool bool | PInt int | PFloat pyfloat | PStr string | PRef addr

datatype pobj = PDict "(string \<times> pval) list" | PList "pval list"

type_synonym store = "pobj list"

definition lookup :: "store \<Rightarrow> addr \<Rightarrow> pobj option" where
  "lookup h a = (if a < length h then Some (h ! a) else None)"

definition READ_ONLY_FIELDS :: "string list" where
  "READ_ONLY_FIELDS = [''id'', ''createdAt'', ''createdBy'', ''updatedAt'', ''updatedBy'']"

definition SUBCOMPONENT_READONLY_FIELDS :: "string list" where
  "SUBCOMPONENT_READONLY_FIELDS = [''id'']"

text \<open>\<^verbatim>\<open>k in v\<close> for a string \<open>k\<close> and a value \<open>v\<close> of the store.\<close>

definition s_contains :: "store \<Rightarrow> string \<Rightarrow> pval \<Rightarrow> error + bool" where
  "s_contains h k v =
     (case v of
        PRef a \<Rightarrow>
          (case lookup h a of
             None \<Rightarrow> Inl DanglingRef
           | Some (PDict kvs) \<Rightarrow> Inr (map_of kvs k \<noteq> None)
           | Some (PList xs) \<Rightarrow> Inr (PStr k \<in> set xs))
      | PStr s \<Rightarrow> Inr (substring_in k s)
      | _ \<Rightarrow> Inl TypeError)"

text \<open>\<^verbatim>\<open>v[k]\<close> for a string \<open>k\<close>.\<close>

definition s_getitem :: "store \<Rightarrow> pval \<Rightarrow> string \<Rightarrow> error + pval" where
  "s_getitem h v k =
     (case v of
        PRef a \<Rightarrow>
          (case lookup h a of
             None \<Rightarrow> Inl DanglingRef
           | Some (PDict kvs) \<Rightarrow> (case map_of kvs k of None \<Rightarrow> Inl KeyError | Some x \<Rightarrow> Inr x)
           | Some (PList xs) \<Rightarrow> Inl TypeError)
      | _ \<Rightarrow> Inl TypeError)"

text \<open>\<^verbatim>\<open>del v[k]\<close> for a string \<open>k\<close>: the object \<open>v\<close> refers to is changed in the store.\<close>

definition s_delitem :: "store \<Rightarrow> pval \<Rightarrow> string \<Rightarrow> error + store" where
  "s_delitem h v k =
     (case v of
        PRef a \<Rightarrow>
          (case lookup h a of
             None \<Rightarrow> Inl DanglingRef
           | Some (PDict kvs) \<Rightarrow>
               (if map_of kvs k = None then Inl KeyError
                else Inr (h[a := PDict (filter (\<lambda>kv. fst kv \<noteq> k) kvs)]))
           | Some (PList xs) \<Rightarrow> Inl TypeError)
      | _ \<Rightarrow> Inl TypeError)"

text \<open>
  The values a \<^verbatim>\<open>for\<close> loop over \<open>v\<close> visits: the members of a sequence, the keys of a
  mapping, the characters of a string.
\<close>

definition s_iter :: "store \<Rightarrow> pval \<Rightarrow> error + pval list" where
  "s_iter h v =
     (case v of
        PRef a \<Rightarrow>
          (case lookup h a of
             None \<Rightarrow> Inl DanglingRef
           | Some (PDict kvs) \<Rightarrow> Inr (map (\<lambda>kv. PStr (fst kv)) kvs)
           | Some (PList xs) \<Rightarrow> Inr xs)
      | PStr s \<Rightarrow> Inr (map (\<lambda>c. PStr [c]) s)
      | _ \<Rightarrow> Inl TypeError)"

text \<open>The inner loop: \<^verbatim>\<open>for field in ...: if field in component: del component[field]\<close>.\<close>

fun clean_component :: "string list \<Rightarrow> pval \<Rightarrow> store \<Rightarrow> error + store" where
  "clean_component [] component h = Inr h"
| "clean_component (field # fields) component h =
     (case s_contains h field component of
        Inl e \<Rightarrow> Inl e
      | Inr False \<Rightarrow> clean_component fields component h
      | Inr True \<Rightarrow>
          (case s_delitem h component field of
             Inl e \<Rightarrow> Inl e
           | Inr h' \<Rightarrow> clean_component fields component h'))"

text \<open>The outer loop: \<^verbatim>\<open>for component in cleaned['subComponents']\<close>.\<close>

fun clean_components :: "pval list \<Rightarrow> store \<Rightarrow> error + store" where
  "clean_components [] h = Inr h"
| "clean_components (component # components) h =
     (case clean_component SUBCOMPONENT_READONLY_FIELDS component h of
        Inl e \<Rightarrow> Inl e
      | Inr h' \<Rightarrow> clean_components components h')"

text \<open>
  \<^verbatim>\<open>clean_rule(rule)\<close>: \<open>rule\<close> is the address of the argument, a mapping by its
  annotation \<^verbatim>\<open>Dict[str, Any]\<close>. The copy is a new object at the next free address with
  the same members; the result is its address and the store the call leaves behind. The
  \<^verbatim>\<open>output\<close> block only reads \<^verbatim>\<open>cleaned['output']['recipients']\<close>: the deletion of
  \<^verbatim>\<open>notificationEndpointIds\<close> is commented out in the source.
\<close>

definition clean_rule :: "store \<Rightarrow> addr \<Rightarrow> error + (addr \<times> store)" where
  "clean_rule h rule =
     (case lookup h rule of
        None \<Rightarrow> Inl DanglingRef
      | Some (PList xs) \<Rightarrow> Inl TypeError
      | Some (PDict kvs) \<Rightarrow>
          (let cleaned = length h;
               fields = foldl (\<lambda>d field. filter (\<lambda>kv. fst kv \<noteq> field) d) kvs READ_ONLY_FIELDS;
               h1 = h @ [PDict fields];
               recipients =
                 (case map_of fields ''output'' of
                    None \<Rightarrow> Inr PNull
                  | Some output \<Rightarrow>
                      (case s_contains h1 ''recipients'' output of
                         Inl e \<Rightarrow> Inl e
                       | Inr False \<Rightarrow> Inr PNull
                       | Inr True \<Rightarrow> s_getitem h1 output ''recipients''))
           in case recipients of
                Inl e \<Rightarrow> Inl e
              | Inr _ \<Rightarrow>
                  (case map_of fields ''subComponents'' of
                     None \<Rightarrow> Inr (cleaned, h1)
                   | Some subs \<Rightarrow>
                       (case s_iter h1 subs of
                          Inl e \<Rightarrow> Inl e
                        | Inr components \<Rightarrow>
                            (case clean_components components h1 of
                               Inl e \<Rightarrow> Inl e
                             | Inr h2 \<Rightarrow> Inr (cleaned, h2))))))"

text \<open>
  A store holding, at address 0, the exported rule
  \<^verbatim>\<open>{"id": "r1", "title": "t", "output": {"recipients": {"notificationEndpointIds": [3]}},
   "subComponents": [{"id": 7, "queryDefinition": {}}]}\<close>,
  and the store \<^verbatim>\<open>clean_rule\<close> leaves behind, with the copy at address 7.
\<close>

definition store_exported :: store where
  "store_exported =
     [PDict [(''id'', PStr ''r1''), (''title'', PStr ''t''), (''output'', PRef 4),
             (''subComponents'', PRef 1)],
      PList [PRef 2],
      PDict [(''id'', PInt 7), (''queryDefinition'', PRef 3)],
      PDict [],
      PDict [(''recipients'', PRef 5)],
      PDict [(''notificationEndpointIds'', PRef 6)],
      PList [PInt 3]]"

definition store_cleaned :: store where
  "store_cleaned =
     [PDict [(''id'', PStr ''r1''), (''title'', PStr ''t''), (''output'', PRef 4),
             (''subComponents'', PRef 1)],
      PList [PRef 2],
      PDict [(''queryDefinition'', PRef 3)],
      PDict [],
      PDict [(''recipients'', PRef 5)],
      PDict [(''notificationEndpointIds'', PRef 6)],
      PList [PInt 3],
      PDict [(''title'', PStr ''t''), (''output'', PRef 4), (''subComponents'', PRef 1)]]"

text \<open>
  What the loops of \<^verbatim>\<open>clean_rule\<close> may do to a store: every object stays as it is,
  or it is a mapping that has lost its \<^verbatim>\<open>id\<close> key.
\<close>

definition only_id_dels :: "store \<Rightarrow> store \<Rightarrow> bool" where
  "only_id_dels h h' \<longleftrightarrow> length h' = length h \<and>
     (\<forall>a < length h. h' ! a = h ! a \<or>
        (\<exists>kvs. h ! a = PDict kvs \<and> h' ! a = PDict (filter (\<lambda>kv. fst kv \<noteq> ''id'') kvs)))"

section \<open>The validator: \<^verbatim>\<open>LogzioRuleValidator\<close> of \<^verbatim>\<open>validate-rules.py\<close>\<close>

subsection \<open>More Python operations on decoded values\<close>

text \<open>Sequencing of computations that may raise: the first exception ends the run.\<close>

definition seq :: "error + 'a \<Rightarrow> ('a \<Rightarrow> error + 'b) \<Rightarrow> error + 'b" where
  "seq m f = (case m of Inl e \<Rightarrow> Inl e | Inr x \<Rightarrow> f x)"

text \<open>The truth value of a decoded value (\<^verbatim>\<open>not x\<close> is its negation).\<close>

fun truthy :: "json \<Rightarrow> bool" where
  "truthy JNull = False"
| "truthy (JBool b) = b"
| "truthy (JInt i) = (i \<noteq> 0)"
| "truthy (JFloat (FNum r)) = (r \<noteq> 0)"
| "truthy (JFloat _) = True"
| "truthy (JStr s) = (s \<noteq> [])"
| "truthy (JList xs) = (xs \<noteq> [])"
| "truthy (JObj d) = (d \<noteq> [])"

text \<open>
  \<^verbatim>\<open>isinstance(x, (int, float))\<close>: \<^verbatim>\<open>bool\<close> is a subclass of \<^verbatim>\<open>int\<close> in Python, so
  \<^verbatim>\<open>True\<close> and \<^verbatim>\<open>False\<close> pass it.
\<close>

fun isinstance_number :: "json \<Rightarrow> bool" where
  "isinstance_number (JInt i) = True"
| "isinstance_number (JFloat f) = True"
| "isinstance_number (JBool b) = True"
| "isinstance_number _ = False"

fun isinstance_str :: "json \<Rightarrow> bool" where
  "isinstance_str (JStr s) = True"
| "isinstance_str _ = False"

fun isinstance_bool :: "json \<Rightarrow> bool" where
  "isinstance_bool (JBool b) = True"
| "isinstance_bool _ = False"

fun isinstance_list :: "json \<Rightarrow> bool" where
  "isinstance_list (JList xs) = True"
| "isinstance_list _ = False"

fun isinstance_dict :: "json \<Rightarrow> bool" where
  "isinstance_dict (JObj d) = True"
| "isinstance_dict _ = False"

text \<open>\<^verbatim>\<open>x <= 0\<close> for a value that passed \<open>isinstance_number\<close>; a NaN compares false.\<close>

fun le_zero :: "json \<Rightarrow> bool" where
  "le_zero (JInt i) = (i \<le> 0)"
| "le_zero (JBool b) = (\<not> b)"
| "le_zero (JFloat (FNum r)) = (r \<le> 0)"
| "le_zero (JFloat (FInf positive)) = (\<not> positive)"
| "le_zero _ = False"

text \<open>\<^verbatim>\<open>x.get(k)\<close>: only a mapping has the method.\<close>

fun py_get :: "json \<Rightarrow> string \<Rightarrow> error + json" where
  "py_get (JObj d) k = Inr (case map_of d k of None \<Rightarrow> JNull | Some v \<Rightarrow> v)"
| "py_get _ k = Inl AttributeError"

fun py_len :: "json \<Rightarrow> error + nat" where
  "py_len (JStr s) = Inr (length s)"
| "py_len (JList xs) = Inr (length xs)"
| "py_len (JObj d) = Inr (length d)"
| "py_len _ = Inl TypeError"

text \<open>\<^verbatim>\<open>x in [s1, ..., sn]\<close> for string literals: only a string equals a string.\<close>

fun in_strings :: "json \<Rightarrow> string list \<Rightarrow> bool" where
  "in_strings (JStr s) allowed = (s \<in> set allowed)"
| "in_strings _ allowed = False"

text \<open>
  What an f-string shows of a value: a string as it is, any other value through
  \<open>fmt\<close>, Python's \<^verbatim>\<open>str()\<close> on numbers, \<^verbatim>\<open>None\<close>, sequences and mappings, which
  is a parameter of the model.
\<close>

definition py_str :: "(json \<Rightarrow> string) \<Rightarrow> json \<Rightarrow> string" where
  "py_str fmt v = (case v of JStr s \<Rightarrow> s | _ \<Rightarrow> fmt v)"

definition quoted :: "string \<Rightarrow> string" where
  "quoted s = [CHR 0x27] @ s @ [CHR 0x27]"

text \<open>\<^verbatim>\<open>', '.join(xs)\<close>.\<close>

fun join_comma :: "string list \<Rightarrow> string" where
  "join_comma [] = []"
| "join_comma [x] = x"
| "join_comma (x # y # ys) = x @ '', '' @ join_comma (y # ys)"

subsection \<open>The validator's state and the shape of its checks\<close>

record validator =
  errors :: "string list"
  warnings :: "string list"

definition add_error :: "string \<Rightarrow> validator \<Rightarrow> validator" where
  "add_error m self = self\<lparr>errors := errors self @ [m]\<rparr>"

definition add_warning :: "string \<Rightarrow> validator \<Rightarrow> validator" where
  "add_warning m self = self\<lparr>warnings := warnings self @ [m]\<rparr>"

text \<open>
  Every method keeps a local \<^verbatim>\<open>valid\<close> beside \<^verbatim>\<open>self\<close>. A check is one block of a
  method: it takes both and returns both, or raises.
\<close>

type_synonym vstate = "bool \<times> validator"

type_synonym step = "vstate \<Rightarrow> error + vstate"

text \<open>\<^verbatim>\<open>self.errors.append(m); valid = False\<close>.\<close>

definition fail :: "string \<Rightarrow> vstate \<Rightarrow> vstate" where
  "fail m vs = (False, add_error m (snd vs))"

text \<open>\<^verbatim>\<open>self.warnings.append(m)\<close>.\<close>

definition warn :: "string \<Rightarrow> vstate \<Rightarrow> vstate" where
  "warn m vs = (fst vs, add_warning m (snd vs))"

text \<open>The blocks of a method run one after the other.\<close>

fun run_steps :: "step list \<Rightarrow> step" where
  "run_steps [] vs = Inr vs"
| "run_steps (f # fs) vs = (case f vs of Inl e \<Rightarrow> Inl e | Inr vs' \<Rightarrow> run_steps fs vs')"

text \<open>\<^verbatim>\<open>if k in x: ... x[k] ...\<close>.\<close>

definition when_present :: "string \<Rightarrow> json \<Rightarrow> (json \<Rightarrow> step) \<Rightarrow> step" where
  "when_present k x f vs =
     seq (py_contains k x) (\<lambda>has. if has then seq (py_getitem x k) (\<lambda>v. f v vs) else Inr vs)"

text \<open>\<^verbatim>\<open>if k not in x: error m  else: ... x[k] ...\<close>.\<close>

definition required :: "string \<Rightarrow> json \<Rightarrow> string \<Rightarrow> (json \<Rightarrow> step) \<Rightarrow> step" where
  "required k x m f vs =
     seq (py_contains k x)
       (\<lambda>has. if \<not> has then Inr (fail m vs) else seq (py_getitem x k) (\<lambda>v. f v vs))"

text \<open>\<^verbatim>\<open>if not ok: error m\<close>.\<close>

definition must :: "bool \<Rightarrow> string \<Rightarrow> step" where
  "must ok m vs = Inr (if \<not> ok then fail m vs else vs)"

text \<open>\<^verbatim>\<open>if not self.validate_...(...): valid = False\<close>.\<close>

definition sub_result :: "(validator \<Rightarrow> error + bool \<times> validator) \<Rightarrow> step" where
  "sub_result validate vs =
     seq (validate (snd vs)) (\<lambda>r. Inr (if \<not> fst r then False else fst vs, snd r))"

subsection \<open>\<^verbatim>\<open>validate_output\<close>\<close>

text \<open>\<^verbatim>\<open>recipients.get(k) and len(recipients[k]) > 0\<close>, as a truth value.\<close>

definition has_items :: "json \<Rightarrow> string \<Rightarrow> error + bool" where
  "has_items recipients k =
     seq (py_get recipients k)
       (\<lambda>v. if truthy v then seq (py_len v) (\<lambda>n. Inr (n > 0)) else Inr False)"

definition check_notification_methods :: "json \<Rightarrow> string \<Rightarrow> step" where
  "check_notification_methods recipients file_path vs =
     seq (has_items recipients ''emails'') (\<lambda>has_emails.
     seq (has_items recipients ''notificationEndpointIds'') (\<lambda>has_endpoints.
       Inr (if \<not> has_emails \<and> \<not> has_endpoints
            then warn (''No notification recipients (emails or endpoints) configured in ''
                       @ file_path) vs
            else vs)))"

fun check_email_formats :: "(json \<Rightarrow> string) \<Rightarrow> json list \<Rightarrow> string \<Rightarrow> step" where
  "check_email_formats fmt [] file_path vs = Inr vs"
| "check_email_formats fmt (email # emails) file_path vs =
     (case py_contains ''@'' email of
        Inl e \<Rightarrow> Inl e
      | Inr has_at \<Rightarrow>
          check_email_formats fmt emails file_path
            (if \<not> has_at
             then warn (''Invalid email format: '' @ py_str fmt email @ '' in '' @ file_path) vs
             else vs))"

definition check_emails :: "(json \<Rightarrow> string) \<Rightarrow> json \<Rightarrow> string \<Rightarrow> step" where
  "check_emails fmt recipients file_path =
     when_present ''emails'' recipients (\<lambda>emails vs.
       case emails of
         JList xs \<Rightarrow> check_email_formats fmt xs file_path vs
       | _ \<Rightarrow> Inr (fail (quoted ''emails'' @ '' must be a list in '' @ file_path) vs))"

definition check_suppress :: "json \<Rightarrow> string \<Rightarrow> step" where
  "check_suppress output file_path vs =
     seq (py_contains ''suppressNotificationsMinutes'' output) (\<lambda>has.
       if has then
         seq (py_getitem output ''suppressNotificationsMinutes'') (\<lambda>v.
           must (isinstance_number v)
             (quoted ''suppressNotificationsMinutes'' @ '' must be a number in '' @ file_path) vs)
       else
         Inr (warn (''Consider adding '' @ quoted ''suppressNotificationsMinutes'' @ '' in ''
                    @ file_path @ '' to avoid alert fatigue'') vs))"

definition validate_output ::
  "(json \<Rightarrow> string) \<Rightarrow> json \<Rightarrow> string \<Rightarrow> validator \<Rightarrow> error + bool \<times> validator" where
  "validate_output fmt output file_path self =
     seq (py_contains ''recipients'' output) (\<lambda>has.
       if \<not> has then
         Inr (True, add_warning (''No '' @ quoted ''recipients'' @ '' in output for ''
                                  @ file_path) self)
       else
         seq (py_getitem output ''recipients'') (\<lambda>recipients.
           run_steps
             [check_notification_methods recipients file_path,
              check_emails fmt recipients file_path,
              check_suppress output file_path]
             (True, self)))"

subsection \<open>\<^verbatim>\<open>validate_query_definition\<close>\<close>

definition valid_types :: "string list" where
  "valid_types = [''COUNT'', ''SUM'', ''AVG'', ''MAX'', ''MIN'', ''UNIQUE_COUNT'', ''NONE'']"

definition check_query :: "json \<Rightarrow> string \<Rightarrow> string \<Rightarrow> step" where
  "check_query query_def component_ref file_path =
     required ''query'' query_def
       (''Missing '' @ quoted ''query'' @ '' in '' @ component_ref @ ''.queryDefinition of ''
        @ file_path)
       (\<lambda>query vs.
          Inr (if \<not> truthy query
               then warn (''Empty query in '' @ component_ref @ ''.queryDefinition of ''
                          @ file_path) vs
               else vs))"

definition check_aggregation :: "(json \<Rightarrow> string) \<Rightarrow> json \<Rightarrow> string \<Rightarrow> string \<Rightarrow> step" where
  "check_aggregation fmt query_def component_ref file_path =
     when_present ''aggregation'' query_def (\<lambda>agg.
       when_present ''aggregationType'' agg (\<lambda>aggregationType.
         must (in_strings aggregationType valid_types)
           (''Invalid aggregationType '' @ quoted (py_str fmt aggregationType) @ '' in ''
            @ component_ref @ '' of '' @ file_path @ ''. '' @ ''Must be one of: ''
            @ join_comma valid_types)))"

definition check_filters :: "json \<Rightarrow> string \<Rightarrow> string \<Rightarrow> step" where
  "check_filters query_def component_ref file_path =
     when_present ''filters'' query_def (\<lambda>filters.
       must (isinstance_dict filters)
         (quoted ''filters'' @ '' must be an object in '' @ component_ref @ '' of ''
          @ file_path))"

definition check_group_by :: "json \<Rightarrow> string \<Rightarrow> string \<Rightarrow> step" where
  "check_group_by query_def component_ref file_path =
     when_present ''groupBy'' query_def (\<lambda>groupBy.
       must (isinstance_list groupBy)
         (quoted ''groupBy'' @ '' must be a list in '' @ component_ref @ '' of '' @ file_path))"

definition validate_query_definition ::
  "(json \<Rightarrow> string) \<Rightarrow> json \<Rightarrow> string \<Rightarrow> string \<Rightarrow> validator \<Rightarrow> error + bool \<times> validator"
  where
  "validate_query_definition fmt query_def component_ref file_path self =
     run_steps
       [check_query query_def component_ref file_path,
        check_aggregation fmt query_def component_ref file_path,
        check_filters query_def component_ref file_path,
        check_group_by query_def component_ref file_path]
       (True, self)"

subsection \<open>\<^verbatim>\<open>validate_trigger\<close>\<close>

definition valid_operators :: "string list" where
  "valid_operators =
     [''GREATER_THAN'', ''LESS_THAN'', ''EQUALS'', ''NOT_EQUALS'',
      ''GREATER_THAN_OR_EQUALS'', ''LESS_THAN_OR_EQUALS'']"

definition valid_severities :: "string list" where
  "valid_severities = [''LOW'', ''MEDIUM'', ''HIGH'', ''SEVERE'']"

definition check_operator :: "(json \<Rightarrow> string) \<Rightarrow> json \<Rightarrow> string \<Rightarrow> string \<Rightarrow> step" where
  "check_operator fmt trigger component_ref file_path =
     required ''operator'' trigger
       (''Missing '' @ quoted ''operator'' @ '' in '' @ component_ref @ ''.trigger of ''
        @ file_path)
       (\<lambda>operator.
          must (in_strings operator valid_operators)
            (''Invalid operator '' @ quoted (py_str fmt operator) @ '' in '' @ component_ref
             @ ''.trigger of '' @ file_path @ ''. '' @ ''Must be one of: ''
             @ join_comma valid_operators))"

text \<open>
  \<^verbatim>\<open>for severity, threshold in tiers.items()\<close>: two independent \<^verbatim>\<open>if\<close>s per entry.
\<close>

fun check_tier_items :: "dict \<Rightarrow> string \<Rightarrow> string \<Rightarrow> vstate \<Rightarrow> vstate" where
  "check_tier_items [] component_ref file_path vs = vs"
| "check_tier_items ((severity, threshold) # tiers) component_ref file_path vs =
     (let vs1 = (if severity \<notin> set valid_severities
                 then fail (''Invalid severity '' @ quoted severity @ '' in '' @ component_ref
                            @ ''.trigger of '' @ file_path @ ''. '' @ ''Must be one of: ''
                            @ join_comma valid_severities) vs
                 else vs);
          vs2 = (if \<not> isinstance_number threshold
                 then fail (''Threshold for '' @ severity @ '' must be a number in ''
                            @ component_ref @ ''.trigger of '' @ file_path) vs1
                 else vs1)
      in check_tier_items tiers component_ref file_path vs2)"

definition check_severity_tiers :: "json \<Rightarrow> string \<Rightarrow> string \<Rightarrow> step" where
  "check_severity_tiers trigger component_ref file_path =
     required ''severityThresholdTiers'' trigger
       (''Missing '' @ quoted ''severityThresholdTiers'' @ '' in '' @ component_ref
        @ ''.trigger of '' @ file_path)
       (\<lambda>tiers vs.
          case tiers of
            JObj items \<Rightarrow> Inr (check_tier_items items component_ref file_path vs)
          | _ \<Rightarrow> Inr (fail (quoted ''severityThresholdTiers'' @ '' must be an object in ''
                             @ component_ref @ ''.trigger of '' @ file_path) vs))"

definition validate_trigger ::
  "(json \<Rightarrow> string) \<Rightarrow> json \<Rightarrow> string \<Rightarrow> string \<Rightarrow> validator \<Rightarrow> error + bool \<times> validator"
  where
  "validate_trigger fmt trigger component_ref file_path self =
     run_steps
       [check_operator fmt trigger component_ref file_path,
        check_severity_tiers trigger component_ref file_path]
       (True, self)"

subsection \<open>\<^verbatim>\<open>validate_subcomponent\<close>\<close>

definition validate_subcomponent ::
  "(json \<Rightarrow> string) \<Rightarrow> json \<Rightarrow> nat \<Rightarrow> string \<Rightarrow> validator \<Rightarrow> error + bool \<times> validator"
  where
  "validate_subcomponent fmt component idx file_path self =
     (let component_ref = ''subComponents['' @ fmt (JInt (int idx)) @ '']'' in
      run_steps
        [required ''queryDefinition'' component
           (''Missing '' @ quoted ''queryDefinition'' @ '' in '' @ component_ref @ '' of ''
            @ file_path)
           (\<lambda>query_def.
              sub_result (validate_query_definition fmt query_def component_ref file_path)),
         required ''trigger'' component
           (''Missing '' @ quoted ''trigger'' @ '' in '' @ component_ref @ '' of '' @ file_path)
           (\<lambda>trigger. sub_result (validate_trigger fmt trigger component_ref file_path))]
        (True, self))"

subsection \<open>\<^verbatim>\<open>validate_correlations\<close>\<close>

fun check_correlation_operators :: "(json \<Rightarrow> string) \<Rightarrow> json list \<Rightarrow> string \<Rightarrow> vstate \<Rightarrow> vstate"
  where
  "check_correlation_operators fmt [] file_path vs = vs"
| "check_correlation_operators fmt (op # ops) file_path vs =
     check_correlation_operators fmt ops file_path
       (if \<not> in_strings op [''AND'', ''OR'']
        then fail (''Invalid correlation operator '' @ quoted (py_str fmt op) @ '' in ''
                   @ file_path @ ''. '' @ ''Must be one of: '' @ join_comma [''AND'', ''OR'']) vs
        else vs)"

definition validate_correlations ::
  "(json \<Rightarrow> string) \<Rightarrow> json \<Rightarrow> string \<Rightarrow> validator \<Rightarrow> error + bool \<times> validator" where
  "validate_correlations fmt correlations file_path self =
     run_steps
       [when_present ''correlationOperators'' correlations (\<lambda>ops vs.
          case ops of
            JList xs \<Rightarrow> Inr (check_correlation_operators fmt xs file_path vs)
          | _ \<Rightarrow> Inr (fail (quoted ''correlationOperators'' @ '' must be a list in ''
                             @ file_path) vs)),
        when_present ''joins'' correlations (\<lambda>joins.
          must (isinstance_list joins) (quoted ''joins'' @ '' must be a list in '' @ file_path))]
       (True, self)"

subsection \<open>\<^verbatim>\<open>validate_security_rule\<close>\<close>

definition required_fields :: "string list" where
  "required_fields = [''title'', ''enabled'', ''searchTimeFrameMinutes'', ''subComponents'']"

fun check_required_fields :: "string list \<Rightarrow> dict \<Rightarrow> string \<Rightarrow> vstate \<Rightarrow> vstate" where
  "check_required_fields [] rule file_path vs = vs"
| "check_required_fields (field # more_fields) rule file_path vs =
     check_required_fields more_fields rule file_path
       (if \<not> dict_has field rule
        then fail (''Missing required field '' @ quoted field @ '' in '' @ file_path) vs
        else vs)"

definition check_title :: "dict \<Rightarrow> string \<Rightarrow> step" where
  "check_title rule file_path =
     when_present ''title'' (JObj rule) (\<lambda>title.
       must (\<not> (\<not> truthy title \<or> \<not> isinstance_str title))
         (quoted ''title'' @ '' must be a non-empty string in '' @ file_path))"

definition check_enabled :: "dict \<Rightarrow> string \<Rightarrow> step" where
  "check_enabled rule file_path =
     when_present ''enabled'' (JObj rule) (\<lambda>enabled.
       must (isinstance_bool enabled)
         (quoted ''enabled'' @ '' must be a boolean in '' @ file_path))"

text \<open>
  The two checks of \<^verbatim>\<open>searchTimeFrameMinutes\<close> are the branches of one
  \<^verbatim>\<open>if ... elif ...\<close>.
\<close>

definition check_search_time_frame :: "dict \<Rightarrow> string \<Rightarrow> step" where
  "check_search_time_frame rule file_path =
     when_present ''searchTimeFrameMinutes'' (JObj rule) (\<lambda>minutes vs.
       if \<not> isinstance_number minutes then
         Inr (fail (quoted ''searchTimeFrameMinutes'' @ '' must be a number in '' @ file_path) vs)
       else if le_zero minutes then
         Inr (fail (quoted ''searchTimeFrameMinutes'' @ '' must be positive in '' @ file_path) vs)
       else Inr vs)"

definition check_output :: "(json \<Rightarrow> string) \<Rightarrow> dict \<Rightarrow> string \<Rightarrow> step" where
  "check_output fmt rule file_path vs =
     (case map_of rule ''output'' of
        Some output \<Rightarrow> sub_result (validate_output fmt output file_path) vs
      | None \<Rightarrow>
          Inr (warn (''Missing '' @ quoted ''output'' @ '' field in '' @ file_path
                     @ '' - rule won't send notifications'') vs))"

text \<open>\<^verbatim>\<open>for idx, component in enumerate(rule['subComponents'])\<close>.\<close>

fun validate_subcomponents :: "(json \<Rightarrow> string) \<Rightarrow> json list \<Rightarrow> nat \<Rightarrow> string \<Rightarrow> step" where
  "validate_subcomponents fmt [] idx file_path vs = Inr vs"
| "validate_subcomponents fmt (component # components) idx file_path vs =
     (case sub_result (validate_subcomponent fmt component idx file_path) vs of
        Inl e \<Rightarrow> Inl e
      | Inr vs' \<Rightarrow> validate_subcomponents fmt components (Suc idx) file_path vs')"

definition check_sub_components :: "(json \<Rightarrow> string) \<Rightarrow> dict \<Rightarrow> string \<Rightarrow> step" where
  "check_sub_components fmt rule file_path =
     when_present ''subComponents'' (JObj rule) (\<lambda>subComponents vs.
       case subComponents of
         JList components \<Rightarrow>
           (if length components = 0 then
              Inr (fail (quoted ''subComponents'' @ '' cannot be empty in '' @ file_path) vs)
            else validate_subcomponents fmt components 0 file_path vs)
       | _ \<Rightarrow> Inr (fail (quoted ''subComponents'' @ '' must be a list in '' @ file_path) vs))"

definition check_correlations :: "(json \<Rightarrow> string) \<Rightarrow> dict \<Rightarrow> string \<Rightarrow> step" where
  "check_correlations fmt rule file_path =
     when_present ''correlations'' (JObj rule) (\<lambda>correlations.
       sub_result (validate_correlations fmt correlations file_path))"

definition check_tags :: "dict \<Rightarrow> string \<Rightarrow> step" where
  "check_tags rule file_path =
     when_present ''tags'' (JObj rule) (\<lambda>tags.
       must (isinstance_list tags) (quoted ''tags'' @ '' must be a list in '' @ file_path))"

text \<open>The recommended fields and the read-only fields only ever add warnings.\<close>

definition recommend_field :: "string \<Rightarrow> string \<Rightarrow> dict \<Rightarrow> step" where
  "recommend_field k m rule vs =
     seq (py_get (JObj rule) k)
       (\<lambda>v. Inr (if \<not> dict_has k rule \<or> \<not> truthy v then warn m vs else vs))"

fun warn_readonly_fields :: "string list \<Rightarrow> dict \<Rightarrow> string \<Rightarrow> vstate \<Rightarrow> vstate" where
  "warn_readonly_fields [] rule file_path vs = vs"
| "warn_readonly_fields (field # more_fields) rule file_path vs =
     warn_readonly_fields more_fields rule file_path
       (if dict_has field rule
        then warn (''Read-only field '' @ quoted field @ '' found in '' @ file_path @ '' - ''
                   @ ''this will be ignored on creation'') vs
        else vs)"

definition validate_security_rule ::
  "(json \<Rightarrow> string) \<Rightarrow> dict \<Rightarrow> string \<Rightarrow> validator \<Rightarrow> error + bool \<times> validator" where
  "validate_security_rule fmt rule file_path self =
     run_steps
       [\<lambda>vs. Inr (check_required_fields required_fields rule file_path vs),
        check_title rule file_path,
        check_enabled rule file_path,
        check_search_time_frame rule file_path,
        check_output fmt rule file_path,
        check_sub_components fmt rule file_path,
        check_correlations fmt rule file_path,
        check_tags rule file_path,
        recommend_field ''description''
          (''Missing or empty '' @ quoted ''description'' @ '' in '' @ file_path) rule,
        recommend_field ''tags''
          (''No tags defined in '' @ file_path
           @ '' - consider adding tags for organization'') rule,
        \<lambda>vs. Inr (warn_readonly_fields readonly_fields rule file_path vs)]
       (True, self)"

text \<open>
  A rule that is well formed up to one address in \<^verbatim>\<open>output.recipients.emails\<close>,
  which is the number 5 and not a string.
\<close>

definition valid_component :: json where
  "valid_component =
     JObj [(''queryDefinition'', JObj [(''query'', JStr ''type:auth AND result:failure'')]),
           (''trigger'', JObj [(''operator'', JStr ''GREATER_THAN''),
                               (''severityThresholdTiers'', JObj [(''HIGH'', JInt 10)])])]"

definition rule_bad_email :: dict where
  "rule_bad_email =
     [(''title'', JStr ''Brute force''), (''enabled'', JBool True),
      (''searchTimeFrameMinutes'', JInt 5),
      (''output'', JObj [(''recipients'', JObj [(''emails'', JList [JInt 5])])]),
      (''subComponents'', JList [valid_component])]"

definition new_validator :: validator where
  "new_validator = \<lparr>errors = [], warnings = []\<rparr>"

section \<open>What the validator decides\<close>

text \<open>
  The member \<open>k\<close> of a value, when the value is a mapping that has it.
\<close>

definition field :: "json \<Rightarrow> string \<Rightarrow> json option" where
  "field x k = (case x of JObj d \<Rightarrow> map_of d k | _ \<Rightarrow> None)"

text \<open>
  The checks of the specification, as predicates on a document: an optional member, if
  present, has the right shape; a required member is present and has the right shape.
  A number is what \<^verbatim>\<open>isinstance(x, (int, float))\<close> accepts, and positive is what
  \<^verbatim>\<open>x <= 0\<close> rejects.
\<close>

definition if_present :: "json \<Rightarrow> string \<Rightarrow> (json \<Rightarrow> bool) \<Rightarrow> bool" where
  "if_present x k ok = (case field x k of None \<Rightarrow> True | Some v \<Rightarrow> ok v)"

definition present_and :: "json \<Rightarrow> string \<Rightarrow> (json \<Rightarrow> bool) \<Rightarrow> bool" where
  "present_and x k ok = (case field x k of None \<Rightarrow> False | Some v \<Rightarrow> ok v)"

definition output_ok :: "json \<Rightarrow> bool" where
  "output_ok output =
     if_present output ''recipients'' (\<lambda>recipients.
       if_present recipients ''emails'' isinstance_list \<and>
       if_present output ''suppressNotificationsMinutes'' isinstance_number)"

definition query_definition_ok :: "json \<Rightarrow> bool" where
  "query_definition_ok query_def =
     (present_and query_def ''query'' (\<lambda>query. True) \<and>
      if_present query_def ''aggregation'' (\<lambda>agg.
        if_present agg ''aggregationType'' (\<lambda>t. in_strings t valid_types)) \<and>
      if_present query_def ''filters'' isinstance_dict \<and>
      if_present query_def ''groupBy'' isinstance_list)"

definition tier_ok :: "string \<times> json \<Rightarrow> bool" where
  "tier_ok tier = (fst tier \<in> set valid_severities \<and> isinstance_number (snd tier))"

definition trigger_ok :: "json \<Rightarrow> bool" where
  "trigger_ok trigger =
     (present_and trigger ''operator'' (\<lambda>operator. in_strings operator valid_operators) \<and>
      present_and trigger ''severityThresholdTiers'' (\<lambda>tiers.
        case tiers of JObj items \<Rightarrow> list_all tier_ok items | _ \<Rightarrow> False))"

definition subcomponent_ok :: "json \<Rightarrow> bool" where
  "subcomponent_ok component =
     (present_and component ''queryDefinition'' query_definition_ok \<and>
      present_and component ''trigger'' trigger_ok)"

definition correlations_ok :: "json \<Rightarrow> bool" where
  "correlations_ok correlations =
     (if_present correlations ''correlationOperators'' (\<lambda>ops.
        case ops of JList xs \<Rightarrow> list_all (\<lambda>op. in_strings op [''AND'', ''OR'']) xs
        | _ \<Rightarrow> False) \<and>
      if_present correlations ''joins'' isinstance_list)"

definition schema_valid :: "dict \<Rightarrow> bool" where
  "schema_valid rule =
     (list_all (\<lambda>k. dict_has k rule) required_fields \<and>
      if_present (JObj rule) ''title'' (\<lambda>title. truthy title \<and> isinstance_str title) \<and>
      if_present (JObj rule) ''enabled'' isinstance_bool \<and>
      if_present (JObj rule) ''searchTimeFrameMinutes''
        (\<lambda>minutes. isinstance_number minutes \<and> \<not> le_zero minutes) \<and>
      if_present (JObj rule) ''output'' output_ok \<and>
      if_present (JObj rule) ''subComponents'' (\<lambda>subComponents.
        case subComponents of
          JList components \<Rightarrow> components \<noteq> [] \<and> list_all subcomponent_ok components
        | _ \<Rightarrow> False) \<and>
      if_present (JObj rule) ''correlations'' correlations_ok \<and>
      if_present (JObj rule) ''tags'' isinstance_list)"

text \<open>The two messages about \<^verbatim>\<open>searchTimeFrameMinutes\<close> start like this.\<close>

definition stf_message :: "string \<Rightarrow> bool" where
  "stf_message m = (take 4 m = CHR 0x27 # ''sea'')"

text \<open>
  What one block does to \<^verbatim>\<open>valid\<close> and \<^verbatim>\<open>self\<close>: it appends errors \<open>ne\<close> and
  warnings \<open>nw\<close>, it leaves \<^verbatim>\<open>valid\<close> true exactly when \<^verbatim>\<open>valid\<close> was true and it
  appended no error, every appended error satisfies \<open>P\<close>, and it appended no error
  exactly when the check \<open>p\<close> holds.
\<close>

definition step_ok :: "(string \<Rightarrow> bool) \<Rightarrow> bool \<Rightarrow> vstate \<Rightarrow> vstate \<Rightarrow> bool" where
  "step_ok P p vs vs' \<longleftrightarrow>
     (\<exists>ne nw. errors (snd vs') = errors (snd vs) @ ne \<and>
              warnings (snd vs') = warnings (snd vs) @ nw \<and>
              (fst vs' \<longleftrightarrow> fst vs \<and> ne = []) \<and> (\<forall>m \<in> set ne. P m) \<and> (ne = [] \<longleftrightarrow> p))"

text \<open>A block decides \<open>p\<close> when every run of it that returns does the above.\<close>

definition decides :: "(string \<Rightarrow> bool) \<Rightarrow> bool \<Rightarrow> step \<Rightarrow> bool" where
  "decides P p f \<longleftrightarrow> (\<forall>vs vs'. f vs = Inr vs' \<longrightarrow> step_ok P p vs vs')"

abbreviation "P0 \<equiv> (\<lambda>m. \<not> stf_message m)"

text \<open>The two errors of the block for \<^verbatim>\<open>searchTimeFrameMinutes\<close>.\<close>

definition not_a_number_error :: "string \<Rightarrow> string" where
  "not_a_number_error file_path =
     quoted ''searchTimeFrameMinutes'' @ '' must be a number in '' @ file_path"

definition not_positive_error :: "string \<Rightarrow> string" where
  "not_positive_error file_path =
     quoted ''searchTimeFrameMinutes'' @ '' must be positive in '' @ file_path"

text \<open>Documents and a rendering for the examples; the rendering shows every value as \<open>?\<close>.\<close>

definition no_fmt :: "json \<Rightarrow> string" where
  "no_fmt v = ''?''"

definition rule_negative_window :: dict where
  "rule_negative_window =
     [(''title'', JStr ''Brute force''), (''enabled'', JBool True),
      (''searchTimeFrameMinutes'', JInt (- 5)),
      (''subComponents'', JList [valid_component]),
      (''tags'', JList [JStr ''auth''])]"

definition rule_ok :: dict where
  "rule_ok =
     [(''title'', JStr ''Brute force''), (''enabled'', JBool True),
      (''searchTimeFrameMinutes'', JInt 5),
      (''subComponents'', JList [valid_component]),
      (''tags'', JList [JStr ''auth''])]"

definition rule_bad_recipients :: dict where
  "rule_bad_recipients =
     [(''title'', JStr ''Brute force''), (''enabled'', JBool True),
      (''searchTimeFrameMinutes'', JInt 5),
      (''output'', JObj [(''recipients'', JList [JStr ''soc@example.com''])]),
      (''subComponents'', JList [valid_component])]"

definition rule_bad_query_definition :: dict where
  "rule_bad_query_definition =
     [(''title'', JStr ''Brute force''), (''enabled'', JBool True),
      (''searchTimeFrameMinutes'', JInt 5),
      (''subComponents'',
         JList [JObj [(''queryDefinition'', JInt 3), (''trigger'', JObj [])]])]"

definition warnings_without_output :: "string list" where
  "warnings_without_output =
     [''Missing '' @ quoted ''output'' @ '' field in rule.json - rule won't send notifications'',
      ''Missing or empty '' @ quoted ''description'' @ '' in rule.json'']"

section \<open>The deployer: \<^verbatim>\<open>SecurityRuleDeployer\<close> of \<^verbatim>\<open>deploy_security_rules.py\<close>\<close>

subsection \<open>Equality of decoded values\<close>

text \<open>
  \<^verbatim>\<open>x == y\<close>: numbers (booleans among them) compare by value and a NaN equals
  nothing; sequences compare member by member; mappings compare as sets of entries, whatever
  the order of their keys; values of different kinds are different.
\<close>

fun num_value :: "json \<Rightarrow> pyfloat option" where
  "num_value (JBool b) = Some (FNum (if b then 1 else 0))"
| "num_value (JInt i) = Some (FNum (of_int i))"
| "num_value (JFloat f) = Some f"
| "num_value _ = None"

definition num_eq :: "pyfloat option \<Rightarrow> pyfloat option \<Rightarrow> bool" where
  "num_eq a b = (case (a, b) of (Some x, Some y) \<Rightarrow> x = y \<and> x \<noteq> FNaN | _ \<Rightarrow> False)"

function py_eq :: "json \<Rightarrow> json \<Rightarrow> bool"
  and py_eq_list :: "json list \<Rightarrow> json list \<Rightarrow> bool"
  and py_eq_items :: "dict \<Rightarrow> dict \<Rightarrow> bool" where
  "py_eq JNull y = (y = JNull)"
| "py_eq (JStr s) y = (y = JStr s)"
| "py_eq (JBool b) y = num_eq (num_value (JBool b)) (num_value y)"
| "py_eq (JInt i) y = num_eq (num_value (JInt i)) (num_value y)"
| "py_eq (JFloat f) y = num_eq (num_value (JFloat f)) (num_value y)"
| "py_eq (JList xs) y = (case y of JList ys \<Rightarrow> py_eq_list xs ys | _ \<Rightarrow> False)"
| "py_eq (JObj a) y =
     (case y of JObj b \<Rightarrow> length a = length b \<and> py_eq_items a b | _ \<Rightarrow> False)"
| "py_eq_list [] ys = (ys = [])"
| "py_eq_list (x # xs) ys =
     (case ys of [] \<Rightarrow> False | y # ys' \<Rightarrow> py_eq x y \<and> py_eq_list xs ys')"
| "py_eq_items [] b = True"
| "py_eq_items (kv # a) b =
     ((case map_of b (fst kv) of None \<Rightarrow> False | Some w \<Rightarrow> py_eq (snd kv) w) \<and>
      py_eq_items a b)"
  by pat_completeness auto
termination
  by (relation "measure (\<lambda>x. case x of
        Inl (a, b) \<Rightarrow> 2 * size a
      | Inr (Inl (xs, ys)) \<Rightarrow> 2 * size_list size xs + 1
      | Inr (Inr (a, b)) \<Rightarrow> 2 * size_list (\<lambda>kv. Suc (size (snd kv))) a + 1)")
     (auto simp: size_prod_simp)

subsection \<open>The remote service\<close>

text \<open>
  \<^verbatim>\<open>requests.post\<close> and \<^verbatim>\<open>requests.put\<close> are the injected capability. A call
  returns a response or raises a \<^verbatim>\<open>RequestException\<close> (timeout, connection error),
  carrying its text. \<open>json_body\<close> is what \<^verbatim>\<open>response.json()\<close> returns, \<open>None\<close> when
  the body is not JSON and the call raises. The service is a function of the request and
  of the requests made before it; the list of requests sent is the state the deployer threads
  through its calls.
\<close>

record response =
  status_code :: int
  json_body :: "json option"

datatype http_result = Response response | RequestException string

datatype http_method = POST | PUT

record request =
  http_method :: http_method
  url :: string
  token :: string
  payload :: json

type_synonym network = "request list \<Rightarrow> request \<Rightarrow> http_result"

definition send :: "network \<Rightarrow> request \<Rightarrow> request list \<Rightarrow> http_result \<times> request list" where
  "send net rq sent = (net sent rq, sent @ [rq])"

subsection \<open>\<^verbatim>\<open>__init__\<close>\<close>

record deployer =
  api_token :: string
  api_url :: string
  environment :: string
  search_endpoint :: string
  update_endpoint :: string
  create_endpoints :: "string list"

text \<open>\<^verbatim>\<open>api_url.rstrip('/')\<close>.\<close>

definition rstrip_slash :: "string \<Rightarrow> string" where
  "rstrip_slash s = rev (dropWhile (\<lambda>c. c = CHR ''/'') (rev s))"

definition init_deployer :: "string \<Rightarrow> string \<Rightarrow> string \<Rightarrow> deployer" where
  "init_deployer tok base env =
     (let u = rstrip_slash base in
      \<lparr>api_token = tok, api_url = u, environment = env,
       search_endpoint = u @ ''/security/rules/search'',
       update_endpoint = u @ ''/security/rules'',
       create_endpoints = [u @ ''/security/rules'', u @ ''/siem/rules'',
                           u @ ''/correlation-rules'']\<rparr>)"

subsection \<open>\<^verbatim>\<open>search_rule_by_title\<close>\<close>

record search_result =
  exists :: bool
  rule_id :: json

text \<open>\<^verbatim>\<open>{'exists': False, 'rule_id': None}\<close>.\<close>

definition not_found :: search_result where
  "not_found = \<lparr>exists = False, rule_id = JNull\<rparr>"

definition search_query :: json where
  "search_query =
     JObj [(''filter'', JObj [(''enabledState'', JList [JBool True])]),
           (''pagination'', JObj [(''pageNumber'', JInt 1), (''pageSize'', JInt 1000)])]"

text \<open>\<^verbatim>\<open>x.get(k, default)\<close>.\<close>

fun py_get_default :: "json \<Rightarrow> string \<Rightarrow> json \<Rightarrow> error + json" where
  "py_get_default (JObj d) k dflt =
     Inr (case map_of d k of None \<Rightarrow> dflt | Some v \<Rightarrow> v)"
| "py_get_default _ k dflt = Inl AttributeError"

text \<open>
  \<^verbatim>\<open>x[:50]\<close> raises unless \<open>x\<close> is a string or a sequence; only whether it raises
  matters, the slice is printed and dropped.
\<close>

fun py_slice :: "json \<Rightarrow> error + unit" where
  "py_slice (JStr s) = Inr ()"
| "py_slice (JList xs) = Inr ()"
| "py_slice _ = Inl TypeError"

text \<open>The values a loop over \<open>x\<close> visits, and \<^verbatim>\<open>x[:n]\<close> as the list of its members.\<close>

fun py_iter :: "json \<Rightarrow> error + json list" where
  "py_iter (JList xs) = Inr xs"
| "py_iter (JObj d) = Inr (map (\<lambda>kv. JStr (fst kv)) d)"
| "py_iter (JStr s) = Inr (map (\<lambda>c. JStr [c]) s)"
| "py_iter _ = Inl TypeError"

fun py_take :: "nat \<Rightarrow> json \<Rightarrow> error + json list" where
  "py_take n (JList xs) = Inr (take n xs)"
| "py_take n (JStr s) = Inr (map (\<lambda>c. JStr [c]) (take n s))"
| "py_take n _ = Inl TypeError"

text \<open>
  \<^verbatim>\<open>s.lower()\<close>, on the ASCII letters; only a string has the method. The lowered
  strings are used for the near-match diagnostics only.
\<close>

definition lower_char :: "char \<Rightarrow> char" where
  "lower_char c =
     (if 65 \<le> (of_char c :: nat) \<and> (of_char c :: nat) \<le> 90
      then char_of (of_char c + (32 :: nat)) else c)"

fun py_lower :: "json \<Rightarrow> error + string" where
  "py_lower (JStr s) = Inr (map lower_char s)"
| "py_lower _ = Inl AttributeError"

text \<open>\<^verbatim>\<open>total > n\<close> for the number \<open>n\<close> of results: only a number compares with it.\<close>

fun py_gt_nat :: "json \<Rightarrow> nat \<Rightarrow> error + bool" where
  "py_gt_nat (JInt i) n = Inr (i > int n)"
| "py_gt_nat (JBool b) n = Inr ((if b then 1 else 0) > n)"
| "py_gt_nat (JFloat (FNum r)) n = Inr (r > of_nat n)"
| "py_gt_nat (JFloat (FInf positive)) n = Inr positive"
| "py_gt_nat (JFloat FNaN) n = Inr False"
| "py_gt_nat _ n = Inl TypeError"

text \<open>
  The loop \<^verbatim>\<open>for i, rule in enumerate(results)\<close>: the first rule whose title equals
  \<open>title\<close> ends it with that rule's \<^verbatim>\<open>id\<close>. For the first three rules the debug line
  prints \<^verbatim>\<open>rule_title[:50]\<close> and \<^verbatim>\<open>title[:50]\<close> before the comparison.
\<close>

fun scan_results :: "json \<Rightarrow> json list \<Rightarrow> nat \<Rightarrow> error + json option" where
  "scan_results title [] i = Inr None"
| "scan_results title (rule # rules) i =
     (case py_get_default rule ''title'' (JStr []) of
        Inl e \<Rightarrow> Inl e
      | Inr rule_title \<Rightarrow>
          (case (if i < 3 then seq (py_slice rule_title) (\<lambda>_. py_slice title) else Inr ()) of
             Inl e \<Rightarrow> Inl e
           | Inr _ \<Rightarrow>
               if py_eq rule_title title
               then seq (py_get rule ''id'') (\<lambda>rid. Inr (Some rid))
               else scan_results title rules (Suc i)))"

text \<open>The near-match diagnostics: \<^verbatim>\<open>for rule in results[:50]\<close>, collecting \<^verbatim>\<open>similar\<close>.\<close>

fun near_matches :: "json \<Rightarrow> json list \<Rightarrow> error + (json \<times> json) list" where
  "near_matches title [] = Inr []"
| "near_matches title (rule # rules) =
     (case py_get_default rule ''title'' (JStr []) of
        Inl e \<Rightarrow> Inl e
      | Inr rule_title \<Rightarrow>
          (case py_lower title of
             Inl e \<Rightarrow> Inl e
           | Inr t \<Rightarrow>
               (case py_lower rule_title of
                  Inl e \<Rightarrow> Inl e
                | Inr rt \<Rightarrow>
                    (case py_get rule ''id'' of
                       Inl e \<Rightarrow> Inl e
                     | Inr rid \<Rightarrow>
                         (case near_matches title rules of
                            Inl e \<Rightarrow> Inl e
                          | Inr similar \<Rightarrow>
                              Inr (if substring_in t rt \<or> substring_in rt t
                                   then (rid, rule_title) # similar
                                   else similar))))))"

text \<open>
  The body of the \<^verbatim>\<open>try\<close> for a response with status 200. Every exception it raises
  is caught by \<^verbatim>\<open>except Exception\<close> in \<open>search_rule_by_title\<close> below.
\<close>

definition search_in_response :: "json \<Rightarrow> response \<Rightarrow> error + search_result" where
  "search_in_response title response =
     (case json_body response of
        None \<Rightarrow> Inl ValueError
      | Some data \<Rightarrow>
          (case data of
             JObj d \<Rightarrow>
               (case map_of d ''results'' of
                  None \<Rightarrow> Inr not_found
                | Some results \<Rightarrow>
                    (let total = (case map_of d ''total'' of None \<Rightarrow> JInt 0 | Some t \<Rightarrow> t) in
                     seq (py_len results) (\<lambda>n.
                       if truthy results \<and> n > 0 then
                         seq (py_iter results) (\<lambda>rules.
                         seq (scan_results title rules 0) (\<lambda>found.
                           case found of
                             Some rid \<Rightarrow> Inr \<lparr>exists = True, rule_id = rid\<rparr>
                           | None \<Rightarrow>
                               seq (py_take 50 results) (\<lambda>first_rules.
                               seq (near_matches title first_rules) (\<lambda>similar.
                               seq (py_gt_nat total n) (\<lambda>more. Inr not_found)))))
                       else Inr not_found)))
           | _ \<Rightarrow> Inr not_found))"

definition search_rule_by_title ::
  "deployer \<Rightarrow> network \<Rightarrow> json \<Rightarrow> request list \<Rightarrow> search_result \<times> request list" where
  "search_rule_by_title self net title sent =
     (case send net \<lparr>http_method = POST, url = search_endpoint self, token = api_token self,
                     payload = search_query\<rparr> sent of
        (RequestException e, sent') \<Rightarrow> (not_found, sent')
      | (Response response, sent') \<Rightarrow>
          (if status_code response = 200 then
             (case search_in_response title response of
                Inl e \<Rightarrow> not_found
              | Inr found \<Rightarrow> found)
           else if status_code response = 404 then not_found
           else not_found,
           sent'))"

subsection \<open>\<^verbatim>\<open>_update_rule\<close>\<close>

text \<open>
  The message of a rejected update: \<^verbatim>\<open>error_data.get('message') or
  error_data.get('error') or error_data.get('errorMessage') or 'No error message
  provided'\<close>. It raises when the body is not JSON or not a mapping.
\<close>

definition error_message :: "response \<Rightarrow> error + json" where
  "error_message response =
     (case json_body response of
        None \<Rightarrow> Inl ValueError
      | Some error_data \<Rightarrow>
          seq (py_get error_data ''message'') (\<lambda>m. if truthy m then Inr m else
          seq (py_get error_data ''error'') (\<lambda>e. if truthy e then Inr e else
          seq (py_get error_data ''errorMessage'') (\<lambda>em. if truthy em then Inr em else
            Inr (JStr ''No error message provided'')))))"

definition update_rule ::
  "(json \<Rightarrow> string) \<Rightarrow> deployer \<Rightarrow> network \<Rightarrow> json \<Rightarrow> dict \<Rightarrow> string \<Rightarrow> request list
     \<Rightarrow> (bool \<times> string) \<times> request list" where
  "update_rule fmt self net rid rule_data rule_name sent =
     (let update_url = update_endpoint self @ ''/'' @ py_str fmt rid in
      case send net \<lparr>http_method = PUT, url = update_url, token = api_token self,
                      payload = JObj rule_data\<rparr> sent of
        (RequestException e, sent') \<Rightarrow> ((False, ''Update request failed: '' @ e), sent')
      | (Response response, sent') \<Rightarrow>
          (if status_code response \<ge> 200 \<and> status_code response < 300 then
             (True, ''Updated successfully (ID: '' @ py_str fmt rid @ '')'')
           else
             (case error_message response of
                Inr error_msg \<Rightarrow> (False, ''Update failed: '' @ py_str fmt error_msg)
              | Inl e \<Rightarrow>
                  (False, ''Update failed with HTTP '' @ fmt (JInt (status_code response)))),
           sent'))"

subsection \<open>\<^verbatim>\<open>_create_rule\<close>\<close>

text \<open>\<^verbatim>\<open>response.json().get('id', 'unknown')\<close>.\<close>

definition created_id :: "response \<Rightarrow> error + json" where
  "created_id response =
     (case json_body response of
        None \<Rightarrow> Inl ValueError
      | Some result \<Rightarrow> py_get_default result ''id'' (JStr ''unknown''))"

text \<open>
  The loop \<^verbatim>\<open>for endpoint in self.create_endpoints\<close>. The branches for 400, for 404
  and for any other status only print; a \<^verbatim>\<open>RequestException\<close> continues the loop.
\<close>

fun create_at ::
  "(json \<Rightarrow> string) \<Rightarrow> deployer \<Rightarrow> network \<Rightarrow> string list \<Rightarrow> dict \<Rightarrow> request list
     \<Rightarrow> (bool \<times> string) \<times> request list" where
  "create_at fmt self net [] rule_data sent =
     ((False, ''Failed to create at any endpoint''), sent)"
| "create_at fmt self net (endpoint # endpoints) rule_data sent =
     (case send net \<lparr>http_method = POST, url = endpoint, token = api_token self,
                      payload = JObj rule_data\<rparr> sent of
        (RequestException e, sent') \<Rightarrow> create_at fmt self net endpoints rule_data sent'
      | (Response response, sent') \<Rightarrow>
          if status_code response \<ge> 200 \<and> status_code response < 300 then
            ((True,
              case created_id response of
                Inr new_id \<Rightarrow>
                  ''Created successfully at '' @ endpoint @ '' (ID: '' @ py_str fmt new_id @ '')''
              | Inl e \<Rightarrow> ''Created successfully at '' @ endpoint),
             sent')
          else if status_code response = 400 then
            create_at fmt self net endpoints rule_data sent'
          else if status_code response = 404 then
            create_at fmt self net endpoints rule_data sent'
          else create_at fmt self net endpoints rule_data sent')"

definition create_rule ::
  "(json \<Rightarrow> string) \<Rightarrow> deployer \<Rightarrow> network \<Rightarrow> dict \<Rightarrow> string \<Rightarrow> request list
     \<Rightarrow> (bool \<times> string) \<times> request list" where
  "create_rule fmt self net rule_data rule_name sent =
     create_at fmt self net (create_endpoints self) rule_data sent"

subsection \<open>\<^verbatim>\<open>deploy_rule\<close>\<close>

text \<open>
  A rule file is a \<^verbatim>\<open>Path\<close>: its \<^verbatim>\<open>name\<close>, its \<^verbatim>\<open>stem\<close> and its text as a string.
  Reading it gives the decoded document, or \<^verbatim>\<open>json.load\<close> raises a
  \<^verbatim>\<open>JSONDecodeError\<close>, or \<^verbatim>\<open>open\<close> raises an \<^verbatim>\<open>OSError\<close>. \<open>exc\<close> is the text
  \<^verbatim>\<open>str(e)\<close> of an exception.
\<close>

record rule_file =
  file_name :: string
  stem :: string
  path :: string

datatype file_content = Parsed json | JSONDecodeError string | OSError string

definition deploy_rule ::
  "(json \<Rightarrow> string) \<Rightarrow> (error \<Rightarrow> string) \<Rightarrow> deployer \<Rightarrow> network \<Rightarrow> (rule_file \<Rightarrow> file_content)
     \<Rightarrow> rule_file \<Rightarrow> request list \<Rightarrow> (bool \<times> string) \<times> request list" where
  "deploy_rule fmt exc self net read file sent =
     (let rule_name = stem file;
          unexpected = (\<lambda>e. ((False, ''Unexpected error processing '' @ rule_name @ '': '' @ e),
                             sent))
      in case read file of
           OSError e \<Rightarrow> unexpected e
         | JSONDecodeError e \<Rightarrow> ((False, ''Invalid JSON in '' @ path file @ '': '' @ e), sent)
         | Parsed rule_data \<Rightarrow>
             (case rule_data of
                JObj d \<Rightarrow>
                  (let rule_title = (case map_of d ''title'' of
                                       None \<Rightarrow> JStr rule_name
                                     | Some t \<Rightarrow> t)
                   in case clean_rule_json d of
                        Inl e \<Rightarrow> unexpected (exc e)
                      | Inr cleaned_data \<Rightarrow>
                          (case search_rule_by_title self net rule_title sent of
                             (found, sent') \<Rightarrow>
                               if exists found then
                                 update_rule fmt self net (rule_id found) cleaned_data
                                   rule_name sent'
                               else create_rule fmt self net cleaned_data rule_name sent'))
              | _ \<Rightarrow> unexpected (exc AttributeError)))"

subsection \<open>\<^verbatim>\<open>deploy_all_rules\<close>\<close>

record results =
  total :: nat
  successful :: nat
  failed :: nat
  created :: nat
  updated :: nat
  failed_rules :: "(string \<times> string) list"

definition no_results :: results where
  "no_results =
     \<lparr>total = 0, successful = 0, failed = 0, created = 0, updated = 0, failed_rules = []\<rparr>"

text \<open>
  One turn of \<^verbatim>\<open>for rule_file in rule_files\<close>, given what \<open>deploy_rule\<close> returned
  for the file.
\<close>

definition record_outcome :: "rule_file \<Rightarrow> bool \<times> string \<Rightarrow> results \<Rightarrow> results" where
  "record_outcome file outcome res =
     (case outcome of
        (success, message) \<Rightarrow>
          if success then
            (if substring_in ''Updated'' message \<or> substring_in ''updated'' message
             then res\<lparr>successful := successful res + 1, updated := updated res + 1\<rparr>
             else res\<lparr>successful := successful res + 1, created := created res + 1\<rparr>)
          else
            res\<lparr>failed := failed res + 1,
                failed_rules := failed_rules res @ [(file_name file, message)]\<rparr>)"

text \<open>The loop, for any way \<open>deploy\<close> of deploying one file.\<close>

fun deploy_files ::
  "(rule_file \<Rightarrow> request list \<Rightarrow> (bool \<times> string) \<times> request list) \<Rightarrow> rule_file list
     \<Rightarrow> results \<Rightarrow> request list \<Rightarrow> results \<times> request list" where
  "deploy_files deploy [] res sent = (res, sent)"
| "deploy_files deploy (file # files) res sent =
     (case deploy file sent of
        (outcome, sent') \<Rightarrow> deploy_files deploy files (record_outcome file outcome res) sent')"

text \<open>
  \<open>dir_exists\<close> is \<^verbatim>\<open>rules_path.exists()\<close> and \<open>rule_files\<close> is
  \<^verbatim>\<open>list(rules_path.glob('*.json'))\<close>.
\<close>

definition deploy_all_rules ::
  "(json \<Rightarrow> string) \<Rightarrow> (error \<Rightarrow> string) \<Rightarrow> deployer \<Rightarrow> network \<Rightarrow> (rule_file \<Rightarrow> file_content)
     \<Rightarrow> bool \<Rightarrow> rule_file list \<Rightarrow> request list \<Rightarrow> results \<times> request list" where
  "deploy_all_rules fmt exc self net read dir_exists rule_files sent =
     (if \<not> dir_exists then (no_results, sent)
      else if rule_files = [] then (no_results, sent)
      else deploy_files (deploy_rule fmt exc self net read) rule_files
             (no_results\<lparr>total := length rule_files\<rparr>) sent)"

section \<open>Notions for stating what the deployer does\<close>

text \<open>
  The request of a search; the title of a result (\<^verbatim>\<open>rule.get('title', '')\<close>) and its
  id (\<^verbatim>\<open>rule.get('id')\<close>); a result that is a mapping with a string for a title.
\<close>

definition search_request :: "deployer \<Rightarrow> request" where
  "search_request self =
     \<lparr>http_method = POST, url = search_endpoint self, token = api_token self,
      payload = search_query\<rparr>"

definition title_of :: "json \<Rightarrow> json" where
  "title_of rule = (case field rule ''title'' of None \<Rightarrow> JStr [] | Some v \<Rightarrow> v)"



text \<open>
  A deployer for the examples, and a remote service that answers by method and address
  from a table, and refuses every other connection.
\<close>

definition deployer_example :: deployer where
  "deployer_example = init_deployer ''secret'' ''https://api.logz.io/v2/'' ''production''"

definition scripted_net :: "((http_method \<times> string) \<times> http_result) list \<Rightarrow> network" where
  "scripted_net table sent rq =
     (case map_of table (http_method rq, url rq) of
        Some answer \<Rightarrow> answer
      | None \<Rightarrow> RequestException ''connection refused'')"

definition listing :: "json list \<Rightarrow> http_result" where
  "listing rules =
     Response \<lparr>status_code = 200,
               json_body = Some (JObj [(''total'', JInt (int (length rules))),
                                       (''results'', JList rules)])\<rparr>"

definition remote_rule :: "json \<Rightarrow> string \<Rightarrow> json" where
  "remote_rule title rid = JObj [(''id'', JStr rid), (''title'', title), (''enabled'', JBool True)]"

text \<open>
  The request of one creation attempt, an answer that ends the attempts, and the message
  of a creation by the body of the answer.
\<close>

definition post_request :: "deployer \<Rightarrow> dict \<Rightarrow> string \<Rightarrow> request" where
  "post_request self rule_data endpoint =
     \<lparr>http_method = POST, url = endpoint, token = api_token self, payload = JObj rule_data\<rparr>"

definition accepted :: "http_result \<Rightarrow> bool" where
  "accepted answer =
     (case answer of
        Response response \<Rightarrow> status_code response \<ge> 200 \<and> status_code response < 300
      | RequestException e \<Rightarrow> False)"

definition created_message :: "(json \<Rightarrow> string) \<Rightarrow> string \<Rightarrow> response \<Rightarrow> string" where
  "created_message fmt endpoint response =
     (case json_body response of
        Some (JObj result) \<Rightarrow>
          ''Created successfully at '' @ endpoint @ '' (ID: ''
          @ py_str fmt (case map_of result ''id'' of None \<Rightarrow> JStr ''unknown'' | Some v \<Rightarrow> v)
          @ '')''
      | _ \<Rightarrow> ''Created successfully at '' @ endpoint)"

text \<open>\<^verbatim>\<open>rule_data.get('title', rule_name)\<close>.\<close>

definition document_title :: "dict \<Rightarrow> string \<Rightarrow> json" where
  "document_title d rule_name = (case map_of d ''title'' of None \<Rightarrow> JStr rule_name | Some t \<Rightarrow> t)"

text \<open>A text for every exception, and two remote services, for the examples.\<close>

definition no_exc :: "error \<Rightarrow> string" where
  "no_exc e = ''error''"

definition net_second_accepts :: network where
  "net_second_accepts =
     scripted_net
       [((POST, ''https://api.logz.io/v2/security/rules''),
           Response \<lparr>status_code = 404, json_body = None\<rparr>),
        ((POST, ''https://api.logz.io/v2/siem/rules''),
           Response \<lparr>status_code = 201, json_body = Some (JObj [(''id'', JStr ''r-99'')])\<rparr>),
        ((POST, ''https://api.logz.io/v2/correlation-rules''),
           Response \<lparr>status_code = 201, json_body = Some (JObj [(''id'', JStr ''r-100'')])\<rparr>)]"

definition net_empty_body :: network where
  "net_empty_body =
     scripted_net
       [((POST, ''https://api.logz.io/v2/security/rules''),
           Response \<lparr>status_code = 201, json_body = None\<rparr>)]"

text \<open>The request of an update of the rule with id \<open>rid\<close>.\<close>

definition put_request :: "(json \<Rightarrow> string) \<Rightarrow> deployer \<Rightarrow> dict \<Rightarrow> json \<Rightarrow> request" where
  "put_request fmt self rule_data rid =
     \<lparr>http_method = PUT, url = update_endpoint self @ ''/'' @ py_str fmt rid,
      token = api_token self, payload = JObj rule_data\<rparr>"

text \<open>
  The message of a rejected update as a ranked list of keys: the value of the first of
  \<^verbatim>\<open>message\<close>, \<^verbatim>\<open>error\<close>, \<^verbatim>\<open>errorMessage\<close> that the body holds with a true (non-empty)
  value, and a generic text when there is none.
\<close>

definition ranked_message :: "dict \<Rightarrow> json" where
  "ranked_message error_data =
     (case filter truthy
             (map (\<lambda>k. case map_of error_data k of None \<Rightarrow> JNull | Some v \<Rightarrow> v)
                  [''message'', ''error'', ''errorMessage'']) of
        [] \<Rightarrow> JStr ''No error message provided''
      | v # vs \<Rightarrow> v)"

text \<open>The outcome of an update, by the answer to its request.\<close>

definition update_outcome :: "(json \<Rightarrow> string) \<Rightarrow> json \<Rightarrow> http_result \<Rightarrow> bool \<times> string" where
  "update_outcome fmt rid answer =
     (case answer of
        RequestException e \<Rightarrow> (False, ''Update request failed: '' @ e)
      | Response response \<Rightarrow>
          if status_code response \<ge> 200 \<and> status_code response < 300 then
            (True, ''Updated successfully (ID: '' @ py_str fmt rid @ '')'')
          else
            (case json_body response of
               Some (JObj error_data) \<Rightarrow>
                 (False, ''Update failed: '' @ py_str fmt (ranked_message error_data))
             | _ \<Rightarrow> (False, ''Update failed with HTTP '' @ fmt (JInt (status_code response)))))"

text \<open>
  Two rule files for the examples, one holding the exported rule and one that cannot be
  read, and a remote service that lists the rule and answers the update as given.
\<close>

definition file_example :: rule_file where
  "file_example =
     \<lparr>file_name = ''brute-force.json'', stem = ''brute-force'',
      path = ''logzio-rules/security/brute-force.json''\<rparr>"

definition read_example :: "rule_file \<Rightarrow> file_content" where
  "read_example file =
     (if file_name file = ''brute-force.json'' then Parsed (JObj doc_exported)
      else OSError ''No such file or directory'')"

definition net_update_rejected :: "response \<Rightarrow> network" where
  "net_update_rejected response =
     scripted_net
       [((POST, ''https://api.logz.io/v2/security/rules/search''),
           listing [remote_rule (JStr ''Brute force'') ''r-42'']),
        ((PUT, ''https://api.logz.io/v2/security/rules/r-42''), Response response)]"

definition file_missing :: rule_file where
  "file_missing =
     \<lparr>file_name = ''missing.json'', stem = ''missing'',
      path = ''logzio-rules/security/missing.json''\<rparr>"

section \<open>Properties of the normalization\<close>

lemma map_of_dict_del: "map_of (dict_del k d) k' = (if k' = k then None else map_of d k')"
  by (induction d) (auto simp: dict_del_def)

lemma dict_del_absent: "map_of d k = None \<Longrightarrow> dict_del k d = d"
  by (induction d) (auto simp: dict_del_def split: if_splits)

lemma map_of_dict_set:
  "map_of (dict_set k v d) k' =
     (if k' = k \<and> map_of d k \<noteq> None then Some v else map_of d k')"
  by (induction d) (auto simp: dict_set_def)

lemma map_of_pops:
  "map_of (foldl (\<lambda>d field. dict_pop field d) d fs) k =
     (if k \<in> set fs then None else map_of d k)"
  by (induction fs arbitrary: d) (auto simp: dict_pop_def map_of_dict_del)

lemma pops_absent:
  "\<forall>f \<in> set fs. map_of d f = None \<Longrightarrow> foldl (\<lambda>d field. dict_pop field d) d fs = d"
  by (induction fs arbitrary: d) (auto simp: dict_pop_def dict_del_absent)

text \<open>
  A run of \<open>clean_rule_json\<close> that returns has either only dropped the root fields, or it
  has also deleted \<^verbatim>\<open>notificationEndpointIds\<close> from a \<^verbatim>\<open>recipients\<close> mapping inside
  an \<^verbatim>\<open>output\<close> mapping.
\<close>

lemma clean_rule_json_shape:
  assumes "clean_rule_json d = Inr d'"
  defines "c \<equiv> foldl (\<lambda>d field. dict_pop field d) d readonly_fields"
  shows "(d' = c \<and>
           (\<forall>out. map_of c ''output'' = Some out \<longrightarrow>
              py_contains ''recipients'' out = Inr False \<or>
              (\<exists>r. py_getitem out ''recipients'' = Inr r \<and>
                   py_contains ''notificationEndpointIds'' r = Inr False))) \<or>
         (\<exists>od r. map_of c ''output'' = Some (JObj od) \<and>
            map_of od ''recipients'' = Some (JObj r) \<and>
            d' = dict_set ''output''
                   (JObj (dict_set ''recipients''
                            (JObj (dict_del ''notificationEndpointIds'' r)) od)) c)"
proof (cases "map_of c ''output''")
  case None
  then show ?thesis
    using assms(1) unfolding clean_rule_json_def c_def[symmetric] Let_def by simp
next
  case (Some out)
  show ?thesis
  proof (cases out)
    case (JObj od)
    show ?thesis
    proof (cases "map_of od ''recipients''")
      case None
      then show ?thesis
        using assms(1) Some JObj
        unfolding clean_rule_json_def c_def[symmetric] Let_def by (simp add: dict_has_def)
    next
      case (Some rec)
      then show ?thesis
        using assms(1) \<open>map_of c ''output'' = Some out\<close> JObj
        unfolding clean_rule_json_def c_def[symmetric] Let_def
        by (cases rec) (auto simp: dict_has_def split: if_splits bool.splits)
    qed
  qed (use assms(1) Some in
        \<open>auto simp: clean_rule_json_def c_def[symmetric] Let_def split: bool.splits\<close>)
qed

text \<open>
  C9. Normalization is idempotent: when \<open>clean_rule_json\<close> returns a document, applying
  it to that document returns the same document again.
\<close>

theorem clean_rule_json_idempotent:
  assumes "clean_rule_json d = Inr d'"
  shows "clean_rule_json d' = Inr d'"
proof -
  define c where "c = foldl (\<lambda>d field. dict_pop field d) d readonly_fields"
  have c_ro: "\<forall>f \<in> set readonly_fields. map_of c f = None"
    by (simp add: c_def map_of_pops)
  have out_ro: "''output'' \<notin> set readonly_fields"
    by (simp add: readonly_fields_def)
  from clean_rule_json_shape[OF assms]
  consider (same) "d' = c"
    | (del) od r where "map_of c ''output'' = Some (JObj od)"
        "map_of od ''recipients'' = Some (JObj r)"
        "d' = dict_set ''output''
                (JObj (dict_set ''recipients''
                         (JObj (dict_del ''notificationEndpointIds'' r)) od)) c"
    unfolding c_def by blast
  then show ?thesis
  proof cases
    case same
    have "foldl (\<lambda>d field. dict_pop field d) c readonly_fields = c"
      using c_ro by (rule pops_absent)
    then show ?thesis
      using assms unfolding same clean_rule_json_def c_def[symmetric] Let_def
      by (auto split: option.splits sum.splits bool.splits)
  next
    case del
    have ro': "\<forall>f \<in> set readonly_fields. map_of d' f = None"
      using c_ro out_ro unfolding del(3) by (auto simp: map_of_dict_set)
    have st: "foldl (\<lambda>d field. dict_pop field d) d' readonly_fields = d'"
      using ro' by (rule pops_absent)
    have o': "map_of d' ''output'' =
        Some (JObj (dict_set ''recipients''
                      (JObj (dict_del ''notificationEndpointIds'' r)) od))"
      unfolding del(3) by (simp add: map_of_dict_set del(1))
    show ?thesis
      unfolding clean_rule_json_def Let_def st o'
      by (simp add: dict_has_def map_of_dict_set del(2) map_of_dict_del)
  qed
qed

lemma clean_rule_json_doc_exported: "clean_rule_json doc_exported = Inr doc_cleaned"
  by (simp add: clean_rule_json_def doc_exported_def doc_cleaned_def readonly_fields_def
      dict_pop_def dict_del_def dict_set_def dict_has_def)

theorem clean_rule_json_idempotent_witness:
  "clean_rule_json doc_exported = Inr doc_cleaned \<and> clean_rule_json doc_cleaned = Inr doc_cleaned"
  using clean_rule_json_idempotent[OF clean_rule_json_doc_exported]
  by (simp add: clean_rule_json_doc_exported)


subsection \<open>The exporter's \<^verbatim>\<open>clean_rule\<close> on the store\<close>



lemma map_of_filter_key: "map_of (filter (\<lambda>kv. fst kv \<noteq> k) kvs) k' = (if k' = k then None else map_of kvs k')"
  by (induction kvs) auto

lemma only_id_dels_no_id:
  "only_id_dels h h' \<Longrightarrow> lookup h a = Some (PDict kvs) \<Longrightarrow> map_of kvs ''id'' = None \<Longrightarrow>
   \<exists>kvs'. lookup h' a = Some (PDict kvs') \<and> map_of kvs' ''id'' = None"
  unfolding only_id_dels_def lookup_def
  by (auto simp: map_of_filter_key split: if_splits)


lemma only_id_dels_list:
  "only_id_dels h h' \<Longrightarrow> lookup h a = Some (PList xs) \<Longrightarrow> lookup h' a = Some (PList xs)"
  unfolding only_id_dels_def lookup_def
  by (auto split: if_splits)





lemma clean_rule_store_exported: "clean_rule store_exported 0 = Inr (7, store_cleaned)"
  by (simp add: clean_rule_def store_exported_def store_cleaned_def lookup_def
      READ_ONLY_FIELDS_def SUBCOMPONENT_READONLY_FIELDS_def s_iter_def s_contains_def
      s_getitem_def s_delitem_def Let_def)

subsection \<open>What each normalization removes\<close>






text \<open>
  C3. The claim holds of \<open>clean_rule_json\<close>, which works on a deep copy, but not of the
  exporter's \<open>clean_rule\<close>: on the store holding the exported rule it returns the copy at
  address 7 and leaves the argument's own sub-component, the mapping at address 2 that
  the argument reaches through \<^verbatim>\<open>subComponents\<close>, without the \<^verbatim>\<open>id\<close> key it had.
\<close>

theorem clean_rule_mutates_input:
  "clean_rule store_exported 0 = Inr (7, store_cleaned) \<and>
   s_getitem store_exported (PRef 0) ''subComponents'' = Inr (PRef 1) \<and>
   lookup store_exported 1 = Some (PList [PRef 2]) \<and>
   s_contains store_exported ''id'' (PRef 2) = Inr True \<and>
   s_getitem store_cleaned (PRef 0) ''subComponents'' = Inr (PRef 1) \<and>
   lookup store_cleaned 1 = Some (PList [PRef 2]) \<and>
   s_contains store_cleaned ''id'' (PRef 2) = Inr False"
  by (simp add: clean_rule_store_exported)
     (simp add: store_exported_def store_cleaned_def s_getitem_def s_contains_def lookup_def)

section \<open>Properties of the validator\<close>

lemma step_ok_refl: "step_ok P True vs vs"
  by (simp add: step_ok_def)

lemma step_ok_fail: "P m \<Longrightarrow> step_ok P False vs (fail m vs)"
  by (simp add: step_ok_def fail_def add_error_def)

lemma step_ok_warn: "step_ok P True vs (warn m vs)"
  by (simp add: step_ok_def warn_def add_warning_def)

lemma step_ok_trans:
  assumes "step_ok P p a b" "step_ok P q b c"
  shows "step_ok P (p \<and> q) a c"
proof -
  from assms(1) obtain ne nw where 1: "errors (snd b) = errors (snd a) @ ne"
    "warnings (snd b) = warnings (snd a) @ nw" "fst b \<longleftrightarrow> fst a \<and> ne = []"
    "\<forall>m \<in> set ne. P m" "ne = [] \<longleftrightarrow> p"
    unfolding step_ok_def by blast
  from assms(2) obtain ne' nw' where 2: "errors (snd c) = errors (snd b) @ ne'"
    "warnings (snd c) = warnings (snd b) @ nw'" "fst c \<longleftrightarrow> fst b \<and> ne' = []"
    "\<forall>m \<in> set ne'. P m" "ne' = [] \<longleftrightarrow> q"
    unfolding step_ok_def by blast
  show ?thesis
    unfolding step_ok_def
    by (rule exI[of _ "ne @ ne'"], rule exI[of _ "nw @ nw'"]) (use 1 2 in auto)
qed

lemma step_ok_cong: "step_ok P p a b \<Longrightarrow> p = q \<Longrightarrow> step_ok P q a b"
  by simp

lemma decides_cong: "decides P p f \<Longrightarrow> p = q \<Longrightarrow> decides P q f"
  by simp

lemma step_ok_weaken: "step_ok P p a b \<Longrightarrow> (\<And>m. P m \<Longrightarrow> Q m) \<Longrightarrow> step_ok Q p a b"
  unfolding step_ok_def
  apply (elim exE conjE)
  subgoal for ne nw
    apply (rule exI[of _ ne], rule exI[of _ nw])
    apply simp
    done
  done

lemma decides_weaken: "decides P p f \<Longrightarrow> (\<And>m. P m \<Longrightarrow> Q m) \<Longrightarrow> decides Q p f"
  unfolding decides_def using step_ok_weaken by blast

lemma decides_pure: "(\<And>vs. step_ok P p vs (g vs)) \<Longrightarrow> decides P p (\<lambda>vs. Inr (g vs))"
  by (auto simp: decides_def)

lemma decidesI: "(\<And>vs vs'. f vs = Inr vs' \<Longrightarrow> step_ok P p vs vs') \<Longrightarrow> decides P p f"
  unfolding decides_def by (intro allI impI)

lemma decidesD: "decides P p f \<Longrightarrow> f vs = Inr vs' \<Longrightarrow> step_ok P p vs vs'"
  unfolding decides_def by (elim allE impE)

lemma decides_fail: "P m \<Longrightarrow> decides P False (\<lambda>vs. Inr (fail m vs))"
  by (rule decides_pure) (rule step_ok_fail)

lemma decides_must: "P m \<Longrightarrow> decides P ok (must ok m)"
  by (auto simp: decides_def must_def step_ok_refl step_ok_fail)

lemma contains_getitem_field:
  "py_contains k x = Inr has \<Longrightarrow>
     (has \<longrightarrow> py_getitem x k = Inr v \<longrightarrow> field x k = Some v) \<and>
     (\<not> has \<longrightarrow> field x k = None)"
  by (cases x) (auto simp: field_def dict_has_def split: option.splits)

lemma decides_when_present:
  assumes "\<And>v. field x k = Some v \<Longrightarrow> decides P (p v) (f v)"
  shows "decides P (case field x k of None \<Rightarrow> True | Some v \<Rightarrow> p v) (when_present k x f)"
  unfolding decides_def
proof (intro allI impI)
  fix vs vs' assume r: "when_present k x f vs = Inr vs'"
  then obtain has where h: "py_contains k x = Inr has"
    by (auto simp: when_present_def seq_def split: sum.splits)
  show "step_ok P (case field x k of None \<Rightarrow> True | Some v \<Rightarrow> p v) vs vs'"
  proof (cases has)
    case True
    with r h obtain v where v: "py_getitem x k = Inr v" "f v vs = Inr vs'"
      by (auto simp: when_present_def seq_def split: sum.splits)
    with contains_getitem_field[OF h, of v] True have fv: "field x k = Some v" by simp
    from assms[OF fv, unfolded decides_def, rule_format, of vs vs'] v(2)
    have "step_ok P (p v) vs vs'" by simp
    then show ?thesis by (simp add: fv)
  next
    case False
    with r h have "vs' = vs" by (simp add: when_present_def seq_def)
    moreover from contains_getitem_field[OF h] False have "field x k = None" by simp
    ultimately show ?thesis by (simp add: step_ok_refl)
  qed
qed

lemma decides_required:
  assumes "P m" "\<And>v. field x k = Some v \<Longrightarrow> decides P (p v) (f v)"
  shows "decides P (case field x k of None \<Rightarrow> False | Some v \<Rightarrow> p v) (required k x m f)"
  unfolding decides_def
proof (intro allI impI)
  fix vs vs' assume r: "required k x m f vs = Inr vs'"
  then obtain has where h: "py_contains k x = Inr has"
    by (auto simp: required_def seq_def split: sum.splits)
  show "step_ok P (case field x k of None \<Rightarrow> False | Some v \<Rightarrow> p v) vs vs'"
  proof (cases has)
    case True
    with r h obtain v where v: "py_getitem x k = Inr v" "f v vs = Inr vs'"
      by (auto simp: required_def seq_def split: sum.splits)
    with contains_getitem_field[OF h, of v] True have fv: "field x k = Some v" by simp
    from assms(2)[OF fv, unfolded decides_def, rule_format, of vs vs'] v(2)
    have "step_ok P (p v) vs vs'" by simp
    then show ?thesis by (simp add: fv)
  next
    case False
    with r h have "vs' = fail m vs" by (simp add: required_def seq_def)
    moreover from contains_getitem_field[OF h] False have "field x k = None" by simp
    ultimately show ?thesis using assms(1) by (simp add: step_ok_fail)
  qed
qed

lemma decides_sub_result:
  assumes "\<And>self r. validate self = Inr r \<Longrightarrow> step_ok P p (True, self) r"
  shows "decides P p (sub_result validate)"
  unfolding decides_def
proof (intro allI impI)
  fix vs vs' assume r: "sub_result validate vs = Inr vs'"
  then obtain res where res: "validate (snd vs) = Inr res"
    and vs': "vs' = (if \<not> fst res then False else fst vs, snd res)"
    by (auto simp: sub_result_def seq_def split: sum.splits)
  from assms[OF res] show "step_ok P p vs vs'"
    unfolding step_ok_def vs' by auto
qed

lemma decides_run_steps_Nil: "decides P True (run_steps [])"
  by (simp add: decides_def step_ok_refl)

lemma decides_run_steps_Cons:
  assumes "decides P p f" "decides P q (run_steps fs)"
  shows "decides P (p \<and> q) (run_steps (f # fs))"
  unfolding decides_def
proof (intro allI impI)
  fix vs vs' assume "run_steps (f # fs) vs = Inr vs'"
  then obtain vs1 where "f vs = Inr vs1" "run_steps fs vs1 = Inr vs'"
    by (auto split: sum.splits)
  then have "step_ok P p vs vs1" "step_ok P q vs1 vs'"
    using assms(1)[unfolded decides_def, rule_format, of vs vs1]
          assms(2)[unfolded decides_def, rule_format, of vs1 vs'] by simp_all
  then show "step_ok P (p \<and> q) vs vs'"
    by (rule step_ok_trans)
qed

lemma run_steps_append:
  "run_steps (fs @ gs) vs = (case run_steps fs vs of Inl e \<Rightarrow> Inl e | Inr vs' \<Rightarrow> run_steps gs vs')"
  by (induction fs arbitrary: vs) (auto split: sum.splits)

lemmas decides_when_present' = decides_when_present[folded if_present_def]
lemmas decides_required' = decides_required[folded present_and_def]

lemma not_stf [simp]:
  "\<not> stf_message (CHR ''M'' # m)" "\<not> stf_message (CHR ''I'' # m)" "\<not> stf_message (CHR ''T'' # m)"
  "c \<noteq> CHR ''s'' \<Longrightarrow> \<not> stf_message (CHR 0x27 # c # m)"
  "\<not> stf_message (CHR 0x27 # CHR ''s'' # CHR ''u'' # m)"
  "\<not> stf_message (CHR 0x27 # CHR ''s'' # CHR ''e'' # CHR ''v'' # m)"
  by (simp_all add: stf_message_def)

lemma check_notification_methods_ok:
  "decides P True (check_notification_methods recipients file_path)"
proof (rule decidesI)
  fix vs vs' assume "check_notification_methods recipients file_path vs = Inr vs'"
  then have "vs' = vs \<or> (\<exists>m. vs' = warn m vs)"
    by (auto simp: check_notification_methods_def seq_def split: sum.splits if_splits)
  then show "step_ok P True vs vs'"
    by (auto simp: step_ok_refl step_ok_warn)
qed

lemma check_email_formats_ok: "decides P True (check_email_formats fmt xs file_path)"
  unfolding decides_def
proof (induction xs)
  case Nil
  then show ?case by (simp add: step_ok_refl)
next
  case (Cons x xs)
  show ?case
  proof (intro allI impI)
    fix vs vs' assume r: "check_email_formats fmt (x # xs) file_path vs = Inr vs'"
    then obtain has_at where h: "py_contains ''@'' x = Inr has_at"
      by (auto split: sum.splits)
    define vs1 where "vs1 = (if \<not> has_at
             then warn (''Invalid email format: '' @ py_str fmt x @ '' in '' @ file_path) vs
             else vs)"
    have 1: "step_ok P True vs vs1" by (simp add: vs1_def step_ok_refl step_ok_warn)
    from r h have "check_email_formats fmt xs file_path vs1 = Inr vs'" by (simp add: vs1_def)
    with Cons.IH have 2: "step_ok P True vs1 vs'" by blast
    from step_ok_trans[OF 1 2] show "step_ok P True vs vs'" by simp
  qed
qed

lemma check_emails_ok:
  "decides P0 (if_present recipients ''emails'' isinstance_list)
     (check_emails fmt recipients file_path)"
  unfolding check_emails_def
proof (rule decides_when_present')
  fix v
  show "decides P0 (isinstance_list v)
     (\<lambda>vs. case v of JList xs \<Rightarrow> check_email_formats fmt xs file_path vs
          | _ \<Rightarrow> Inr (fail (quoted ''emails'' @ '' must be a list in '' @ file_path) vs))"
    by (cases v) (simp_all add: check_email_formats_ok decides_fail quoted_def)
qed

lemma check_suppress_ok:
  "decides P0 (if_present output ''suppressNotificationsMinutes'' isinstance_number)
     (check_suppress output file_path)"
  unfolding decides_def
proof (intro allI impI)
  fix vs vs' assume r: "check_suppress output file_path vs = Inr vs'"
  then obtain has where h: "py_contains ''suppressNotificationsMinutes'' output = Inr has"
    by (auto simp: check_suppress_def seq_def split: sum.splits)
  show "step_ok P0 (if_present output ''suppressNotificationsMinutes'' isinstance_number) vs vs'"
  proof (cases has)
    case True
    with r h obtain v where v: "py_getitem output ''suppressNotificationsMinutes'' = Inr v"
      and vs': "vs' = (if \<not> isinstance_number v
          then fail (quoted ''suppressNotificationsMinutes'' @ '' must be a number in '' @ file_path) vs
          else vs)"
      by (auto simp: check_suppress_def seq_def must_def split: sum.splits)
    from contains_getitem_field[OF h, of v] True v
    have "field output ''suppressNotificationsMinutes'' = Some v" by simp
    then show ?thesis
      by (simp add: if_present_def vs' step_ok_refl step_ok_fail quoted_def)
  next
    case False
    with contains_getitem_field[OF h] have "field output ''suppressNotificationsMinutes'' = None"
      by simp
    moreover from r h False have "\<exists>m. vs' = warn m vs"
      by (auto simp: check_suppress_def seq_def)
    ultimately show ?thesis by (auto simp: if_present_def step_ok_warn)
  qed
qed

lemma validate_output_ok:
  assumes "validate_output fmt output file_path self = Inr r"
  shows "step_ok P0 (output_ok output) (True, self) r"
proof -
  from assms obtain has where h: "py_contains ''recipients'' output = Inr has"
    by (auto simp: validate_output_def seq_def split: sum.splits)
  show ?thesis
  proof (cases has)
    case False
    with contains_getitem_field[OF h] have "field output ''recipients'' = None" by simp
    moreover from assms h False have "\<exists>m. r = warn m (True, self)"
      by (auto simp: validate_output_def seq_def warn_def)
    ultimately show ?thesis by (auto simp: output_ok_def if_present_def step_ok_warn)
  next
    case True
    with assms h obtain recipients where g: "py_getitem output ''recipients'' = Inr recipients"
      and run: "run_steps
             [check_notification_methods recipients file_path,
              check_emails fmt recipients file_path,
              check_suppress output file_path] (True, self) = Inr r"
      by (auto simp: validate_output_def seq_def split: sum.splits)
    from contains_getitem_field[OF h, of recipients] True g
    have f: "field output ''recipients'' = Some recipients" by simp
    have "decides P0 (True \<and> if_present recipients ''emails'' isinstance_list \<and>
             if_present output ''suppressNotificationsMinutes'' isinstance_number \<and> True)
           (run_steps
             [check_notification_methods recipients file_path,
              check_emails fmt recipients file_path,
              check_suppress output file_path])"
      by (intro decides_run_steps_Cons decides_run_steps_Nil check_notification_methods_ok
          check_emails_ok check_suppress_ok)
    from this run have "step_ok P0 (True \<and> if_present recipients ''emails'' isinstance_list \<and>
             if_present output ''suppressNotificationsMinutes'' isinstance_number \<and> True)
             (True, self) r"
      by (rule decidesD)
    then show ?thesis by (simp add: output_ok_def if_present_def f)
  qed
qed

lemma stepsD:
  "decides P p (run_steps fs) \<Longrightarrow> run_steps fs (True, self) = Inr r \<Longrightarrow> p = q \<Longrightarrow>
   step_ok P q (True, self) r"
  by (auto dest: decidesD)

lemma check_query_ok:
  "decides P0 (present_and query_def ''query'' (\<lambda>query. True))
     (check_query query_def component_ref file_path)"
  unfolding check_query_def
proof (rule decides_required')
  fix v
  show "decides P0 True (\<lambda>vs. Inr (if \<not> truthy v
       then warn (''Empty query in '' @ component_ref @ ''.queryDefinition of '' @ file_path) vs
       else vs))"
    by (rule decides_pure) (simp add: step_ok_refl step_ok_warn)
qed simp

lemma check_aggregation_ok:
  "decides P0 (if_present query_def ''aggregation'' (\<lambda>agg.
        if_present agg ''aggregationType'' (\<lambda>t. in_strings t valid_types)))
     (check_aggregation fmt query_def component_ref file_path)"
  unfolding check_aggregation_def
  by (intro decides_when_present' decides_must) simp

lemma check_filters_ok:
  "decides P0 (if_present query_def ''filters'' isinstance_dict)
     (check_filters query_def component_ref file_path)"
  unfolding check_filters_def
  by (intro decides_when_present' decides_must) (simp add: quoted_def)

lemma check_group_by_ok:
  "decides P0 (if_present query_def ''groupBy'' isinstance_list)
     (check_group_by query_def component_ref file_path)"
  unfolding check_group_by_def
  by (intro decides_when_present' decides_must) (simp add: quoted_def)

lemma validate_query_definition_ok:
  assumes "validate_query_definition fmt query_def component_ref file_path self = Inr r"
  shows "step_ok P0 (query_definition_ok query_def) (True, self) r"
  by (rule stepsD[OF _ assms[unfolded validate_query_definition_def]],
      (rule decides_run_steps_Cons decides_run_steps_Nil check_query_ok check_aggregation_ok
        check_filters_ok check_group_by_ok)+)
     (simp add: query_definition_ok_def)

lemma check_operator_ok:
  "decides P0 (present_and trigger ''operator'' (\<lambda>operator. in_strings operator valid_operators))
     (check_operator fmt trigger component_ref file_path)"
  unfolding check_operator_def
  by (intro decides_required' decides_must) simp_all

lemma check_tier_items_ok:
  "step_ok P0 (list_all tier_ok items) vs (check_tier_items items component_ref file_path vs)"
proof (induction items arbitrary: vs)
  case Nil
  then show ?case by (simp add: step_ok_refl)
next
  case (Cons tier items)
  obtain severity threshold where t: "tier = (severity, threshold)" by (cases tier)
  define vs1 where "vs1 = (if severity \<notin> set valid_severities
                 then fail (''Invalid severity '' @ quoted severity @ '' in '' @ component_ref
                            @ ''.trigger of '' @ file_path @ ''. '' @ ''Must be one of: ''
                            @ join_comma valid_severities) vs
                 else vs)"
  define vs2 where "vs2 = (if \<not> isinstance_number threshold
                 then fail (''Threshold for '' @ severity @ '' must be a number in ''
                            @ component_ref @ ''.trigger of '' @ file_path) vs1
                 else vs1)"
  have 1: "step_ok P0 (severity \<in> set valid_severities) vs vs1"
    by (simp add: vs1_def step_ok_refl step_ok_fail)
  have 2: "step_ok P0 (isinstance_number threshold) vs1 vs2"
    by (simp add: vs2_def step_ok_refl step_ok_fail)
  have 3: "step_ok P0 (list_all tier_ok items) vs2
             (check_tier_items items component_ref file_path vs2)"
    by (rule Cons.IH)
  have "check_tier_items (tier # items) component_ref file_path vs =
        check_tier_items items component_ref file_path vs2"
    by (simp add: t vs1_def vs2_def Let_def)
  moreover have "list_all tier_ok (tier # items) \<longleftrightarrow>
      (severity \<in> set valid_severities \<and> isinstance_number threshold) \<and> list_all tier_ok items"
    by (simp add: t tier_ok_def)
  ultimately show ?case
    using step_ok_trans[OF step_ok_trans[OF 1 2] 3] by simp
qed

lemma check_severity_tiers_ok:
  "decides P0 (present_and trigger ''severityThresholdTiers'' (\<lambda>tiers.
        case tiers of JObj items \<Rightarrow> list_all tier_ok items | _ \<Rightarrow> False))
     (check_severity_tiers trigger component_ref file_path)"
  unfolding check_severity_tiers_def
proof (rule decides_required')
  fix v
  show "decides P0 (case v of JObj items \<Rightarrow> list_all tier_ok items | _ \<Rightarrow> False)
     (\<lambda>vs. case v of
            JObj items \<Rightarrow> Inr (check_tier_items items component_ref file_path vs)
          | _ \<Rightarrow> Inr (fail (quoted ''severityThresholdTiers'' @ '' must be an object in ''
                             @ component_ref @ ''.trigger of '' @ file_path) vs))"
    by (cases v) (simp_all add: decides_fail decides_pure check_tier_items_ok quoted_def)
qed simp

lemma validate_trigger_ok:
  assumes "validate_trigger fmt trigger component_ref file_path self = Inr r"
  shows "step_ok P0 (trigger_ok trigger) (True, self) r"
  by (rule stepsD[OF _ assms[unfolded validate_trigger_def]],
      (rule decides_run_steps_Cons decides_run_steps_Nil check_operator_ok
        check_severity_tiers_ok)+)
     (simp add: trigger_ok_def)

lemma validate_subcomponent_ok:
  assumes "validate_subcomponent fmt component idx file_path self = Inr r"
  shows "step_ok P0 (subcomponent_ok component) (True, self) r"
  by (rule stepsD[OF _ assms[unfolded validate_subcomponent_def Let_def]],
      (rule decides_run_steps_Cons decides_run_steps_Nil decides_required'
        decides_sub_result validate_query_definition_ok validate_trigger_ok | simp | assumption)+)
     (simp_all add: subcomponent_ok_def)

lemma validate_subcomponents_ok:
  "decides P0 (list_all subcomponent_ok components)
     (validate_subcomponents fmt components idx file_path)"
proof (induction components arbitrary: idx)
  case Nil
  show ?case by (rule decidesI) (simp add: step_ok_refl)
next
  case (Cons c cs)
  show ?case
  proof (rule decidesI)
    fix vs vs'
    assume r: "validate_subcomponents fmt (c # cs) idx file_path vs = Inr vs'"
    then obtain vs1 where 1: "sub_result (validate_subcomponent fmt c idx file_path) vs = Inr vs1"
      and 2: "validate_subcomponents fmt cs (Suc idx) file_path vs1 = Inr vs'"
      by (auto split: sum.splits)
    have "decides P0 (subcomponent_ok c) (sub_result (validate_subcomponent fmt c idx file_path))"
      by (rule decides_sub_result) (rule validate_subcomponent_ok)
    from step_ok_trans[OF decidesD[OF this 1] decidesD[OF Cons.IH 2]]
    show "step_ok P0 (list_all subcomponent_ok (c # cs)) vs vs'" by simp
  qed
qed

lemma check_correlation_operators_ok:
  "step_ok P0 (list_all (\<lambda>op. in_strings op [''AND'', ''OR'']) ops) vs
     (check_correlation_operators fmt ops file_path vs)"
proof (induction ops arbitrary: vs)
  case Nil
  then show ?case by (simp add: step_ok_refl)
next
  case (Cons op ops)
  define vs1 where "vs1 = (if \<not> in_strings op [''AND'', ''OR'']
        then fail (''Invalid correlation operator '' @ quoted (py_str fmt op) @ '' in ''
                   @ file_path @ ''. '' @ ''Must be one of: '' @ join_comma [''AND'', ''OR'']) vs
        else vs)"
  have 1: "step_ok P0 (in_strings op [''AND'', ''OR'']) vs vs1"
    by (simp add: vs1_def step_ok_refl step_ok_fail)
  have "check_correlation_operators fmt (op # ops) file_path vs =
        check_correlation_operators fmt ops file_path vs1"
    by (simp add: vs1_def)
  with step_ok_trans[OF 1 Cons.IH[of vs1]] show ?case by simp
qed

lemma validate_correlations_ok:
  assumes "validate_correlations fmt correlations file_path self = Inr r"
  shows "step_ok P0 (correlations_ok correlations) (True, self) r"
proof -
  have inner: "decides P0 (case v of JList xs \<Rightarrow> list_all (\<lambda>op. in_strings op [''AND'', ''OR'']) xs
        | _ \<Rightarrow> False)
     (\<lambda>vs. case v of
            JList xs \<Rightarrow> Inr (check_correlation_operators fmt xs file_path vs)
          | _ \<Rightarrow> Inr (fail (quoted ''correlationOperators'' @ '' must be a list in ''
                             @ file_path) vs))" for v
    by (cases v)
       (simp_all add: decides_fail decides_pure check_correlation_operators_ok quoted_def)
  show ?thesis
    by (rule stepsD[OF _ assms[unfolded validate_correlations_def]],
        (rule decides_run_steps_Cons decides_run_steps_Nil decides_when_present'
          decides_must inner | simp add: quoted_def)+)
       (simp_all add: correlations_ok_def)
qed

lemma check_required_fields_ok:
  "step_ok P0 (list_all (\<lambda>k. dict_has k rule) ks) vs
     (check_required_fields ks rule file_path vs)"
proof (induction ks arbitrary: vs)
  case Nil
  then show ?case by (simp add: step_ok_refl)
next
  case (Cons k ks)
  define vs1 where "vs1 = (if \<not> dict_has k rule
        then fail (''Missing required field '' @ quoted k @ '' in '' @ file_path) vs
        else vs)"
  have 1: "step_ok P0 (dict_has k rule) vs vs1"
    by (simp add: vs1_def step_ok_refl step_ok_fail)
  have "check_required_fields (k # ks) rule file_path vs =
        check_required_fields ks rule file_path vs1"
    by (simp add: vs1_def)
  with step_ok_trans[OF 1 Cons.IH[of vs1]] show ?case by simp
qed

lemma check_title_ok:
  "decides P0 (if_present (JObj rule) ''title'' (\<lambda>title. truthy title \<and> isinstance_str title))
     (check_title rule file_path)"
  unfolding check_title_def
  by (rule decides_cong, rule decides_when_present', rule decides_must)
     (simp_all add: quoted_def)

lemma check_enabled_ok:
  "decides P0 (if_present (JObj rule) ''enabled'' isinstance_bool) (check_enabled rule file_path)"
  unfolding check_enabled_def
  by (rule decides_when_present', rule decides_must) (simp add: quoted_def)

lemma check_output_ok:
  "decides P0 (if_present (JObj rule) ''output'' output_ok) (check_output fmt rule file_path)"
proof (cases "map_of rule ''output''")
  case None
  have "decides P0 True (check_output fmt rule file_path)"
    unfolding check_output_def None option.case
    by (rule decides_pure) (rule step_ok_warn)
  then show ?thesis by (simp add: if_present_def field_def None)
next
  case (Some out)
  have "decides P0 (output_ok out) (sub_result (validate_output fmt out file_path))"
    by (rule decides_sub_result) (rule validate_output_ok)
  moreover have "check_output fmt rule file_path = sub_result (validate_output fmt out file_path)"
    by (rule ext) (simp add: check_output_def Some)
  ultimately show ?thesis by (simp add: if_present_def field_def Some)
qed

lemma check_sub_components_ok:
  "decides P0 (if_present (JObj rule) ''subComponents'' (\<lambda>subComponents.
        case subComponents of
          JList components \<Rightarrow> components \<noteq> [] \<and> list_all subcomponent_ok components
        | _ \<Rightarrow> False))
     (check_sub_components fmt rule file_path)"
  unfolding check_sub_components_def
proof (rule decides_when_present')
  fix v
  show "decides P0 (case v of
          JList components \<Rightarrow> components \<noteq> [] \<and> list_all subcomponent_ok components
        | _ \<Rightarrow> False)
     (\<lambda>vs. case v of
         JList components \<Rightarrow>
           (if length components = 0 then
              Inr (fail (quoted ''subComponents'' @ '' cannot be empty in '' @ file_path) vs)
            else validate_subcomponents fmt components 0 file_path vs)
       | _ \<Rightarrow> Inr (fail (quoted ''subComponents'' @ '' must be a list in '' @ file_path) vs))"
  proof (cases v)
    case (JList cs)
    show ?thesis
    proof (cases "cs = []")
      case True
      then show ?thesis by (simp add: JList decides_fail quoted_def)
    next
      case False
      then show ?thesis by (simp add: JList validate_subcomponents_ok)
    qed
  qed (simp_all add: decides_fail quoted_def)
qed

lemma check_correlations_ok:
  "decides P0 (if_present (JObj rule) ''correlations'' correlations_ok)
     (check_correlations fmt rule file_path)"
  unfolding check_correlations_def
  by (rule decides_when_present', rule decides_sub_result) (rule validate_correlations_ok)

lemma check_tags_ok:
  "decides P0 (if_present (JObj rule) ''tags'' isinstance_list) (check_tags rule file_path)"
  unfolding check_tags_def
  by (rule decides_when_present', rule decides_must) (simp add: quoted_def)

lemma recommend_field_ok: "decides P True (recommend_field k m rule)"
proof (rule decidesI)
  fix vs vs' assume "recommend_field k m rule vs = Inr vs'"
  then have "vs' = vs \<or> vs' = warn m vs"
    by (auto simp: recommend_field_def seq_def split: if_splits)
  then show "step_ok P True vs vs'"
    by (auto simp: step_ok_refl step_ok_warn)
qed

lemma warn_readonly_fields_ok:
  "step_ok P True vs (warn_readonly_fields ks rule file_path vs)"
proof (induction ks arbitrary: vs)
  case Nil
  then show ?case by (simp add: step_ok_refl)
next
  case (Cons k ks)
  define vs1 where "vs1 = (if dict_has k rule
        then warn (''Read-only field '' @ quoted k @ '' found in '' @ file_path @ '' - ''
                   @ ''this will be ignored on creation'') vs
        else vs)"
  have 1: "step_ok P True vs vs1"
    by (simp add: vs1_def step_ok_refl step_ok_warn)
  have "warn_readonly_fields (k # ks) rule file_path vs =
        warn_readonly_fields ks rule file_path vs1"
    by (simp add: vs1_def)
  with step_ok_trans[OF 1 Cons.IH[of vs1]] show ?case by simp
qed

text \<open>What the block for \<^verbatim>\<open>searchTimeFrameMinutes\<close> appends.\<close>

lemma check_search_time_frame_errors:
  assumes "check_search_time_frame rule file_path vs = Inr vs'"
  shows "\<exists>ne. errors (snd vs') = errors (snd vs) @ ne \<and>
           warnings (snd vs') = warnings (snd vs) \<and> (fst vs' \<longleftrightarrow> fst vs \<and> ne = []) \<and>
           ne = (case map_of rule ''searchTimeFrameMinutes'' of
                   None \<Rightarrow> []
                 | Some minutes \<Rightarrow>
                     if \<not> isinstance_number minutes then [not_a_number_error file_path]
                     else if le_zero minutes then [not_positive_error file_path]
                     else [])"
  using assms
  by (cases "map_of rule ''searchTimeFrameMinutes''")
     (auto simp: check_search_time_frame_def when_present_def seq_def dict_has_def fail_def
        add_error_def not_a_number_error_def not_positive_error_def split: if_splits)

lemma stf_message_errors [simp]:
  "stf_message (not_a_number_error file_path)" "stf_message (not_positive_error file_path)"
  by (simp_all add: stf_message_def not_a_number_error_def not_positive_error_def quoted_def)

lemma not_a_number_neq_not_positive [simp]:
  "not_a_number_error file_path \<noteq> not_positive_error file_path"
  by (simp add: not_a_number_error_def not_positive_error_def quoted_def)

text \<open>
  A run of \<open>validate_security_rule\<close> that returns: the blocks before the one for
  \<^verbatim>\<open>searchTimeFrameMinutes\<close>, that block, and the blocks after it.
\<close>

lemma validate_security_rule_parts:
  assumes "validate_security_rule fmt rule file_path self = Inr r"
  obtains vs1 vs2 where
    "step_ok P0 (list_all (\<lambda>k. dict_has k rule) required_fields \<and>
        if_present (JObj rule) ''title'' (\<lambda>title. truthy title \<and> isinstance_str title) \<and>
        if_present (JObj rule) ''enabled'' isinstance_bool) (True, self) vs1"
    "check_search_time_frame rule file_path vs1 = Inr vs2"
    "step_ok P0 (if_present (JObj rule) ''output'' output_ok \<and>
        if_present (JObj rule) ''subComponents'' (\<lambda>subComponents.
          case subComponents of
            JList components \<Rightarrow> components \<noteq> [] \<and> list_all subcomponent_ok components
          | _ \<Rightarrow> False) \<and>
        if_present (JObj rule) ''correlations'' correlations_ok \<and>
        if_present (JObj rule) ''tags'' isinstance_list) vs2 r"
proof -
  define pre where "pre = [\<lambda>vs. Inr (check_required_fields required_fields rule file_path vs),
        check_title rule file_path, check_enabled rule file_path]"
  define post where "post = [check_output fmt rule file_path,
        check_sub_components fmt rule file_path,
        check_correlations fmt rule file_path,
        check_tags rule file_path,
        recommend_field ''description''
          (''Missing or empty '' @ quoted ''description'' @ '' in '' @ file_path) rule,
        recommend_field ''tags''
          (''No tags defined in '' @ file_path
           @ '' - consider adding tags for organization'') rule,
        \<lambda>vs. Inr (warn_readonly_fields readonly_fields rule file_path vs)]"
  have "validate_security_rule fmt rule file_path self =
        run_steps (pre @ check_search_time_frame rule file_path # post) (True, self)"
    by (simp add: validate_security_rule_def pre_def post_def)
  with assms obtain vs1 vs2 where a: "run_steps pre (True, self) = Inr vs1"
    and b: "check_search_time_frame rule file_path vs1 = Inr vs2"
    and c: "run_steps post vs2 = Inr r"
    by (auto simp: run_steps_append split: sum.splits)
  have "decides P0 (list_all (\<lambda>k. dict_has k rule) required_fields \<and>
        if_present (JObj rule) ''title'' (\<lambda>title. truthy title \<and> isinstance_str title) \<and>
        if_present (JObj rule) ''enabled'' isinstance_bool \<and> True) (run_steps pre)"
    unfolding pre_def
    by (rule decides_run_steps_Cons decides_run_steps_Nil decides_pure
          check_required_fields_ok check_title_ok check_enabled_ok)+
  from decidesD[OF this a] have 1: "step_ok P0 (list_all (\<lambda>k. dict_has k rule) required_fields \<and>
        if_present (JObj rule) ''title'' (\<lambda>title. truthy title \<and> isinstance_str title) \<and>
        if_present (JObj rule) ''enabled'' isinstance_bool) (True, self) vs1" by simp
  have "decides P0 (if_present (JObj rule) ''output'' output_ok \<and>
        if_present (JObj rule) ''subComponents'' (\<lambda>subComponents.
          case subComponents of
            JList components \<Rightarrow> components \<noteq> [] \<and> list_all subcomponent_ok components
          | _ \<Rightarrow> False) \<and>
        if_present (JObj rule) ''correlations'' correlations_ok \<and>
        if_present (JObj rule) ''tags'' isinstance_list \<and> True \<and> True \<and> True \<and> True)
       (run_steps post)"
    unfolding post_def
    by (rule decides_run_steps_Cons decides_run_steps_Nil decides_pure
          check_output_ok check_sub_components_ok check_correlations_ok check_tags_ok
          recommend_field_ok warn_readonly_fields_ok)+
  from decidesD[OF this c] have 3: "step_ok P0 (if_present (JObj rule) ''output'' output_ok \<and>
        if_present (JObj rule) ''subComponents'' (\<lambda>subComponents.
          case subComponents of
            JList components \<Rightarrow> components \<noteq> [] \<and> list_all subcomponent_ok components
          | _ \<Rightarrow> False) \<and>
        if_present (JObj rule) ''correlations'' correlations_ok \<and>
        if_present (JObj rule) ''tags'' isinstance_list) vs2 r" by simp
  from that[OF 1 b 3] show thesis .
qed


lemma search_time_frame_findings:
  assumes "validate_security_rule fmt rule file_path self = Inr r"
  shows "\<exists>ne. errors (snd r) = errors self @ ne \<and>
           (not_a_number_error file_path \<in> set ne \<longleftrightarrow>
              present_and (JObj rule) ''searchTimeFrameMinutes''
                (\<lambda>minutes. \<not> isinstance_number minutes)) \<and>
           (not_positive_error file_path \<in> set ne \<longleftrightarrow>
              present_and (JObj rule) ''searchTimeFrameMinutes''
                (\<lambda>minutes. isinstance_number minutes \<and> le_zero minutes))"
proof -
  from assms obtain vs1 vs2 p q where
    1: "step_ok P0 p (True, self) vs1" and
    2: "check_search_time_frame rule file_path vs1 = Inr vs2" and
    3: "step_ok P0 q vs2 r"
    by (rule validate_security_rule_parts)
  from 1 obtain ne1 where ne1: "errors (snd vs1) = errors self @ ne1" "\<forall>m \<in> set ne1. P0 m"
    unfolding step_ok_def by auto
  from 3 obtain ne3 where ne3: "errors (snd r) = errors (snd vs2) @ ne3" "\<forall>m \<in> set ne3. P0 m"
    unfolding step_ok_def by auto
  from check_search_time_frame_errors[OF 2] obtain ne2 where
    ne2: "errors (snd vs2) = errors (snd vs1) @ ne2"
      "ne2 = (case map_of rule ''searchTimeFrameMinutes'' of
                   None \<Rightarrow> []
                 | Some minutes \<Rightarrow>
                     if \<not> isinstance_number minutes then [not_a_number_error file_path]
                     else if le_zero minutes then [not_positive_error file_path]
                     else [])"
    by blast
  have out: "not_a_number_error file_path \<notin> set ne1" "not_a_number_error file_path \<notin> set ne3"
    "not_positive_error file_path \<notin> set ne1" "not_positive_error file_path \<notin> set ne3"
    using ne1(2) ne3(2) stf_message_errors by blast+
  have "errors (snd r) = errors self @ (ne1 @ ne2 @ ne3)"
    by (simp add: ne1(1) ne2(1) ne3(1))
  moreover have "not_a_number_error file_path \<in> set (ne1 @ ne2 @ ne3) \<longleftrightarrow>
      present_and (JObj rule) ''searchTimeFrameMinutes'' (\<lambda>minutes. \<not> isinstance_number minutes)"
    using out by (auto simp: ne2(2) present_and_def field_def split: option.splits if_splits)
  moreover have "not_positive_error file_path \<in> set (ne1 @ ne2 @ ne3) \<longleftrightarrow>
      present_and (JObj rule) ''searchTimeFrameMinutes''
                (\<lambda>minutes. isinstance_number minutes \<and> le_zero minutes)"
    using out
    by (auto simp: ne2(2) present_and_def field_def not_a_number_neq_not_positive[symmetric]
        split: option.splits if_splits)
  ultimately show ?thesis by blast
qed

lemmas validator_defs =
  validate_security_rule_def check_title_def check_enabled_def check_search_time_frame_def
  check_output_def check_sub_components_def check_correlations_def check_tags_def
  recommend_field_def validate_output_def check_notification_methods_def check_emails_def
  check_suppress_def validate_query_definition_def check_query_def check_aggregation_def
  check_filters_def check_group_by_def validate_trigger_def check_operator_def
  check_severity_tiers_def validate_subcomponent_def validate_correlations_def
  when_present_def required_def must_def sub_result_def seq_def has_items_def
  fail_def warn_def add_error_def add_warning_def dict_has_def required_fields_def
  readonly_fields_def valid_component_def valid_operators_def valid_severities_def
  valid_types_def new_validator_def

lemma new_validator_simps [simp]: "errors new_validator = []" "warnings new_validator = []"
  by (simp_all add: new_validator_def)

lemma validate_rule_negative_window:
  "validate_security_rule no_fmt rule_negative_window ''rule.json'' new_validator =
     Inr (False, \<lparr>errors = [not_positive_error ''rule.json''],
                   warnings = warnings_without_output\<rparr>)"
  by (simp add: validator_defs rule_negative_window_def not_positive_error_def
      warnings_without_output_def)


lemma schema_valid_rule_ok: "schema_valid rule_ok"
  by (simp add: schema_valid_def rule_ok_def if_present_def present_and_def field_def
      dict_has_def required_fields_def valid_component_def subcomponent_ok_def
      query_definition_ok_def trigger_ok_def tier_ok_def valid_operators_def
      valid_severities_def)

text \<open>
  C2. The validation does not return for every input mapping: it raises. With a number
  among \<^verbatim>\<open>output.recipients.emails\<close> the test \<^verbatim>\<open>'@' not in email\<close> raises a
  \<^verbatim>\<open>TypeError\<close>; with a sequence for \<^verbatim>\<open>recipients\<close> the call
  \<^verbatim>\<open>recipients.get('emails')\<close> raises an \<^verbatim>\<open>AttributeError\<close>; with a number for
  \<^verbatim>\<open>queryDefinition\<close> the test \<^verbatim>\<open>'query' not in query_def\<close> raises a
  \<^verbatim>\<open>TypeError\<close>. This holds for every rendering, file path and validator state.
\<close>

theorem validate_security_rule_raises:
  "validate_security_rule fmt rule_bad_email file_path self = Inl TypeError \<and>
   validate_security_rule fmt rule_bad_recipients file_path self = Inl AttributeError \<and>
   validate_security_rule fmt rule_bad_query_definition file_path self = Inl TypeError"
  by (simp add: validator_defs rule_bad_email_def rule_bad_recipients_def
      rule_bad_query_definition_def)

text \<open>
  C4 (as stated: some document makes one run produce both the not-a-number error and
  the not-positive error) fails: no run of \<open>validate_security_rule\<close> that returns has
  appended both.
\<close>

theorem search_time_frame_checks_counterexample:
  "\<not> (\<exists>fmt rule file_path self r ne.
        validate_security_rule fmt rule file_path self = Inr r \<and>
        errors (snd r) = errors self @ ne \<and>
        not_a_number_error file_path \<in> set ne \<and> not_positive_error file_path \<in> set ne)"
proof
  assume "\<exists>fmt rule file_path self r ne.
        validate_security_rule fmt rule file_path self = Inr r \<and>
        errors (snd r) = errors self @ ne \<and>
        not_a_number_error file_path \<in> set ne \<and> not_positive_error file_path \<in> set ne"
  then obtain fmt rule file_path self r ne where
    run: "validate_security_rule fmt rule file_path self = Inr r" and
    ne: "errors (snd r) = errors self @ ne" and
    both: "not_a_number_error file_path \<in> set ne" "not_positive_error file_path \<in> set ne"
    by blast
  from search_time_frame_findings[OF run] ne both
  have "present_and (JObj rule) ''searchTimeFrameMinutes''
          (\<lambda>minutes. \<not> isinstance_number minutes)"
       "present_and (JObj rule) ''searchTimeFrameMinutes''
          (\<lambda>minutes. isinstance_number minutes \<and> le_zero minutes)"
    by auto
  then show False
    by (auto simp: present_and_def split: option.splits)
qed

text \<open>
  C4 (amended). The two checks of \<^verbatim>\<open>searchTimeFrameMinutes\<close> are the branches of one
  \<^verbatim>\<open>if ... elif\<close>: a run that returns has appended the not-a-number error exactly
  when the field is present and not a number, the not-positive error exactly when the
  field is present, a number and \<^verbatim>\<open><= 0\<close>, and never both.
\<close>

theorem search_time_frame_checks:
  assumes "validate_security_rule fmt rule file_path self = Inr (valid, self')"
  shows "\<exists>ne. errors self' = errors self @ ne \<and>
           (not_a_number_error file_path \<in> set ne \<longleftrightarrow>
              present_and (JObj rule) ''searchTimeFrameMinutes''
                (\<lambda>minutes. \<not> isinstance_number minutes)) \<and>
           (not_positive_error file_path \<in> set ne \<longleftrightarrow>
              present_and (JObj rule) ''searchTimeFrameMinutes''
                (\<lambda>minutes. isinstance_number minutes \<and> le_zero minutes)) \<and>
           \<not> (not_a_number_error file_path \<in> set ne \<and>
              not_positive_error file_path \<in> set ne)"
proof -
  from search_time_frame_findings[OF assms] obtain ne where
    ne: "errors self' = errors self @ ne"
      "not_a_number_error file_path \<in> set ne \<longleftrightarrow>
              present_and (JObj rule) ''searchTimeFrameMinutes''
                (\<lambda>minutes. \<not> isinstance_number minutes)"
      "not_positive_error file_path \<in> set ne \<longleftrightarrow>
              present_and (JObj rule) ''searchTimeFrameMinutes''
                (\<lambda>minutes. isinstance_number minutes \<and> le_zero minutes)"
    by auto
  have "\<not> (not_a_number_error file_path \<in> set ne \<and> not_positive_error file_path \<in> set ne)"
    unfolding ne(2,3) by (auto simp: present_and_def split: option.splits)
  with ne show ?thesis by blast
qed

theorem search_time_frame_checks_witness:
  "validate_security_rule no_fmt rule_negative_window ''rule.json'' new_validator =
     Inr (False, \<lparr>errors = [not_positive_error ''rule.json''],
                   warnings = warnings_without_output\<rparr>) \<and>
   present_and (JObj rule_negative_window) ''searchTimeFrameMinutes''
     (\<lambda>minutes. isinstance_number minutes \<and> le_zero minutes) \<and>
   \<not> present_and (JObj rule_negative_window) ''searchTimeFrameMinutes''
     (\<lambda>minutes. \<not> isinstance_number minutes)"
  using search_time_frame_checks[OF validate_rule_negative_window]
  by (simp add: validate_rule_negative_window not_a_number_neq_not_positive[symmetric])



section \<open>Properties of the deployer\<close>

lemma py_eq_str: "py_eq x (JStr t) \<longleftrightarrow> x = JStr t"
  by (cases x) (auto simp: num_eq_def split: if_splits)

lemma search_sent: "snd (search_rule_by_title self net title sent) = sent @ [search_request self]"
  by (auto simp: search_rule_by_title_def send_def search_request_def split: http_result.splits)

lemma scan_results_no_match:
  "\<forall>r \<in> set rules. title_of r \<noteq> JStr t \<Longrightarrow> scan_results (JStr t) rules i \<noteq> Inr (Some rid)"
proof (induction rules arbitrary: i)
  case Nil
  then show ?case by simp
next
  case (Cons r rules)
  then show ?case
    by (cases r)
       (auto simp: title_of_def field_def py_eq_str seq_def split: sum.splits option.splits if_splits)
qed







lemma deployer_example_simps:
  "search_endpoint deployer_example = ''https://api.logz.io/v2/security/rules/search''"
  "update_endpoint deployer_example = ''https://api.logz.io/v2/security/rules''"
  "create_endpoints deployer_example =
     [''https://api.logz.io/v2/security/rules'', ''https://api.logz.io/v2/siem/rules'',
      ''https://api.logz.io/v2/correlation-rules'']"
  "api_token deployer_example = ''secret''"
  by (simp_all add: deployer_example_def init_deployer_def rstrip_slash_def Let_def)






lemma created_message_eq:
  "(case created_id response of
      Inr new_id \<Rightarrow> ''Created successfully at '' @ endpoint @ '' (ID: '' @ py_str fmt new_id @ '')''
    | Inl e \<Rightarrow> ''Created successfully at '' @ endpoint) = created_message fmt endpoint response"
proof (cases "json_body response")
  case None
  then show ?thesis by (simp add: created_id_def created_message_def)
next
  case (Some result)
  then show ?thesis by (cases result) (simp_all add: created_id_def created_message_def)
qed

lemma create_at_step:
  "\<not> accepted (net sent (post_request self rule_data endpoint)) \<Longrightarrow>
   create_at fmt self net (endpoint # endpoints) rule_data sent =
   create_at fmt self net endpoints rule_data (sent @ [post_request self rule_data endpoint])"
  by (auto simp: send_def accepted_def post_request_def split: http_result.splits)

lemma create_at_accept:
  "net sent (post_request self rule_data endpoint) = Response response \<Longrightarrow>
   status_code response \<ge> 200 \<Longrightarrow> status_code response < 300 \<Longrightarrow>
   create_at fmt self net (endpoint # endpoints) rule_data sent =
   ((True, created_message fmt endpoint response),
    sent @ [post_request self rule_data endpoint])"
  by (simp add: send_def post_request_def created_message_eq)

lemma create_at_rejected:
  "\<forall>i < length endpoints.
     \<not> accepted (net (sent @ map (post_request self rule_data) (take i endpoints))
                    (post_request self rule_data (endpoints ! i))) \<Longrightarrow>
   create_at fmt self net endpoints rule_data sent =
   ((False, ''Failed to create at any endpoint''),
    sent @ map (post_request self rule_data) endpoints)"
proof (induction endpoints arbitrary: sent)
  case Nil
  then show ?case by simp
next
  case (Cons e es)
  from Cons.prems[rule_format, of 0]
  have 0: "\<not> accepted (net sent (post_request self rule_data e))" by simp
  have "\<forall>i < length es.
     \<not> accepted (net ((sent @ [post_request self rule_data e])
                       @ map (post_request self rule_data) (take i es))
                    (post_request self rule_data (es ! i)))"
  proof (intro allI impI)
    fix i assume "i < length es"
    with Cons.prems[rule_format, of "Suc i"]
    show "\<not> accepted (net ((sent @ [post_request self rule_data e])
                       @ map (post_request self rule_data) (take i es))
                    (post_request self rule_data (es ! i)))" by simp
  qed
  from Cons.IH[OF this] create_at_step[where net=net and sent=sent and self=self and rule_data=rule_data
      and endpoint=e, OF 0] show ?case by simp
qed

lemma create_at_accepted:
  "k < length endpoints \<Longrightarrow>
   \<forall>i < k. \<not> accepted (net (sent @ map (post_request self rule_data) (take i endpoints))
                    (post_request self rule_data (endpoints ! i))) \<Longrightarrow>
   net (sent @ map (post_request self rule_data) (take k endpoints))
       (post_request self rule_data (endpoints ! k)) = Response response \<Longrightarrow>
   status_code response \<ge> 200 \<Longrightarrow> status_code response < 300 \<Longrightarrow>
   create_at fmt self net endpoints rule_data sent =
   ((True, created_message fmt (endpoints ! k) response),
    sent @ map (post_request self rule_data) (take (Suc k) endpoints))"
proof (induction endpoints arbitrary: sent k)
  case Nil
  then show ?case by simp
next
  case (Cons e es)
  show ?case
  proof (cases k)
    case 0
    with Cons.prems(3) have "net sent (post_request self rule_data e) = Response response"
      by simp
    from create_at_accept[where net=net and sent=sent and self=self and rule_data=rule_data
      and endpoint=e, OF this Cons.prems(4,5)] 0 show ?thesis by simp
  next
    case (Suc j)
    from Cons.prems(2)[rule_format, of 0] Suc
    have 0: "\<not> accepted (net sent (post_request self rule_data e))" by simp
    have j: "j < length es" using Cons.prems(1) Suc by simp
    have rej: "\<forall>i < j.
       \<not> accepted (net ((sent @ [post_request self rule_data e])
                       @ map (post_request self rule_data) (take i es))
                    (post_request self rule_data (es ! i)))"
    proof (intro allI impI)
      fix i assume "i < j"
      with Cons.prems(2)[rule_format, of "Suc i"] Suc
      show "\<not> accepted (net ((sent @ [post_request self rule_data e])
                       @ map (post_request self rule_data) (take i es))
                    (post_request self rule_data (es ! i)))" by simp
    qed
    have acc: "net ((sent @ [post_request self rule_data e])
                     @ map (post_request self rule_data) (take j es))
                 (post_request self rule_data (es ! j)) = Response response"
      using Cons.prems(3) Suc by simp
    from Cons.IH[OF j rej acc Cons.prems(4,5)] create_at_step[where net=net and sent=sent and self=self and rule_data=rule_data
      and endpoint=e, OF 0] Suc
    show ?thesis by simp
  qed
qed

text \<open>
  When the search finds nothing, \<open>deploy_rule\<close> is \<open>create_rule\<close> on the cleaned document;
  when it finds a rule, \<open>deploy_rule\<close> is \<open>update_rule\<close> with the rule's id.
\<close>

lemma deploy_rule_parsed:
  assumes "read file = Parsed (JObj d)" and "clean_rule_json d = Inr cleaned"
  shows "deploy_rule fmt exc self net read file sent =
     (if exists (fst (search_rule_by_title self net (document_title d (stem file)) sent))
      then update_rule fmt self net
             (rule_id (fst (search_rule_by_title self net (document_title d (stem file)) sent)))
             cleaned (stem file) (sent @ [search_request self])
      else create_rule fmt self net cleaned (stem file) (sent @ [search_request self]))"
proof -
  obtain found sent' where
    s: "search_rule_by_title self net (document_title d (stem file)) sent = (found, sent')"
    by (cases "search_rule_by_title self net (document_title d (stem file)) sent")
  with search_sent[of self net "document_title d (stem file)" sent]
  have "sent' = sent @ [search_request self]" by simp
  with s assms show ?thesis
    by (simp add: deploy_rule_def Let_def document_title_def)
qed

lemma create_rule_second_accepts:
  "create_rule no_fmt deployer_example net_second_accepts doc_cleaned ''brute-force'' [] =
     ((True, ''Created successfully at https://api.logz.io/v2/siem/rules (ID: r-99)''),
      [post_request deployer_example doc_cleaned ''https://api.logz.io/v2/security/rules'',
       post_request deployer_example doc_cleaned ''https://api.logz.io/v2/siem/rules''])"
  by (simp add: create_rule_def deployer_example_simps net_second_accepts_def scripted_net_def
      send_def created_id_def py_str_def post_request_def)

lemma create_rule_empty_body:
  "create_rule no_fmt deployer_example net_empty_body doc_cleaned ''brute-force'' [] =
     ((True, ''Created successfully at https://api.logz.io/v2/security/rules''),
      [post_request deployer_example doc_cleaned ''https://api.logz.io/v2/security/rules''])"
  by (simp add: create_rule_def deployer_example_simps net_empty_body_def scripted_net_def
      send_def created_id_def py_str_def post_request_def)

text \<open>
  C6 (as stated: a 2xx answer gives a CREATED outcome recording the body's \<^verbatim>\<open>id\<close>,
  otherwise \<^verbatim>\<open>unknown\<close>) fails when the 2xx answer has no JSON body:
  \<^verbatim>\<open>response.json()\<close> raises and the outcome records no id at all.
\<close>

theorem create_rule_counterexample:
  "net_empty_body []
     (post_request deployer_example doc_cleaned ''https://api.logz.io/v2/security/rules'')
     = Response \<lparr>status_code = 201, json_body = None\<rparr> \<and>
   create_rule no_fmt deployer_example net_empty_body doc_cleaned ''brute-force'' [] =
     ((True, ''Created successfully at https://api.logz.io/v2/security/rules''),
      [post_request deployer_example doc_cleaned ''https://api.logz.io/v2/security/rules'']) \<and>
   \<not> substring_in ''unknown'' ''Created successfully at https://api.logz.io/v2/security/rules''"
  by (simp add: create_rule_empty_body)
     (simp add: net_empty_body_def scripted_net_def post_request_def)

text \<open>
  C6 (amended). When the search finds no rule for a document, \<open>deploy_rule\<close> creates it:
  the candidate endpoints are tried in their declared order, each with one POST of the
  cleaned document. If endpoint \<open>k\<close> is the first to answer 2xx, the outcome is a success
  attributed to endpoint \<open>k\<close> and exactly the endpoints up to \<open>k\<close> have been called; the
  message records the \<^verbatim>\<open>id\<close> of the body when the body is a JSON mapping with an
  \<^verbatim>\<open>id\<close>, \<^verbatim>\<open>unknown\<close> when it is a JSON mapping without one, and no id when the body is
  not a JSON mapping. Any other answer (404, 400, any other status, a transport failure)
  moves on to the next endpoint; if no endpoint answers 2xx, every endpoint has been
  called once and the outcome is the failure \<^verbatim>\<open>Failed to create at any endpoint\<close>.
\<close>

theorem create_rule_fallback:
  "(read file = Parsed (JObj d) \<and> clean_rule_json d = Inr cleaned \<and>
    \<not> exists (fst (search_rule_by_title self net (document_title d (stem file)) sent)) \<longrightarrow>
    deploy_rule fmt exc self net read file sent =
      create_rule fmt self net cleaned (stem file) (sent @ [search_request self])) \<and>
   (k < length (create_endpoints self) \<and>
    (\<forall>i < k. \<not> accepted
       (net (sent @ map (post_request self rule_data) (take i (create_endpoints self)))
            (post_request self rule_data (create_endpoints self ! i)))) \<and>
    net (sent @ map (post_request self rule_data) (take k (create_endpoints self)))
        (post_request self rule_data (create_endpoints self ! k)) = Response response \<and>
    status_code response \<ge> 200 \<and> status_code response < 300 \<longrightarrow>
    create_rule fmt self net rule_data rule_name sent =
      ((True, created_message fmt (create_endpoints self ! k) response),
       sent @ map (post_request self rule_data) (take (Suc k) (create_endpoints self)))) \<and>
   ((\<forall>i < length (create_endpoints self). \<not> accepted
       (net (sent @ map (post_request self rule_data) (take i (create_endpoints self)))
            (post_request self rule_data (create_endpoints self ! i)))) \<longrightarrow>
    create_rule fmt self net rule_data rule_name sent =
      ((False, ''Failed to create at any endpoint''),
       sent @ map (post_request self rule_data) (create_endpoints self)))"
proof (intro conjI impI)
  assume "read file = Parsed (JObj d) \<and> clean_rule_json d = Inr cleaned \<and>
    \<not> exists (fst (search_rule_by_title self net (document_title d (stem file)) sent))"
  then show "deploy_rule fmt exc self net read file sent =
      create_rule fmt self net cleaned (stem file) (sent @ [search_request self])"
    by (simp add: deploy_rule_parsed)
next
  assume "k < length (create_endpoints self) \<and>
    (\<forall>i < k. \<not> accepted
       (net (sent @ map (post_request self rule_data) (take i (create_endpoints self)))
            (post_request self rule_data (create_endpoints self ! i)))) \<and>
    net (sent @ map (post_request self rule_data) (take k (create_endpoints self)))
        (post_request self rule_data (create_endpoints self ! k)) = Response response \<and>
    status_code response \<ge> 200 \<and> status_code response < 300"
  then show "create_rule fmt self net rule_data rule_name sent =
      ((True, created_message fmt (create_endpoints self ! k) response),
       sent @ map (post_request self rule_data) (take (Suc k) (create_endpoints self)))"
    unfolding create_rule_def by (elim conjE) (rule create_at_accepted)
next
  assume "\<forall>i < length (create_endpoints self). \<not> accepted
       (net (sent @ map (post_request self rule_data) (take i (create_endpoints self)))
            (post_request self rule_data (create_endpoints self ! i)))"
  then show "create_rule fmt self net rule_data rule_name sent =
      ((False, ''Failed to create at any endpoint''),
       sent @ map (post_request self rule_data) (create_endpoints self))"
    unfolding create_rule_def by (rule create_at_rejected)
qed

theorem create_rule_fallback_witness:
  "\<not> accepted (net_second_accepts []
       (post_request deployer_example doc_cleaned ''https://api.logz.io/v2/security/rules'')) \<and>
   net_second_accepts
       [post_request deployer_example doc_cleaned ''https://api.logz.io/v2/security/rules'']
       (post_request deployer_example doc_cleaned ''https://api.logz.io/v2/siem/rules'')
     = Response \<lparr>status_code = 201, json_body = Some (JObj [(''id'', JStr ''r-99'')])\<rparr> \<and>
   create_rule no_fmt deployer_example net_second_accepts doc_cleaned ''brute-force'' [] =
     ((True, ''Created successfully at https://api.logz.io/v2/siem/rules (ID: r-99)''),
      [post_request deployer_example doc_cleaned ''https://api.logz.io/v2/security/rules'',
       post_request deployer_example doc_cleaned ''https://api.logz.io/v2/siem/rules''])"
  using create_rule_fallback[where self=deployer_example and net=net_second_accepts
      and k=1 and sent="[]" and rule_data=doc_cleaned and fmt=no_fmt
      and rule_name="''brute-force''"
      and response="\<lparr>status_code = 201, json_body = Some (JObj [(''id'', JStr ''r-99'')])\<rparr>"]
  by (simp add: create_rule_second_accepts)
     (simp add: net_second_accepts_def scripted_net_def post_request_def accepted_def)

lemma error_message_ranked:
  "error_message response =
     (case json_body response of
        Some (JObj error_data) \<Rightarrow> Inr (ranked_message error_data)
      | Some _ \<Rightarrow> Inl AttributeError
      | None \<Rightarrow> Inl ValueError)"
proof (cases "json_body response")
  case None
  then show ?thesis by (simp add: error_message_def)
next
  case (Some body)
  then show ?thesis
    by (cases body)
       (auto simp: error_message_def seq_def ranked_message_def split: option.splits)
qed

lemma update_rule_result:
  "update_rule fmt self net rid rule_data rule_name sent =
     (update_outcome fmt rid (net sent (put_request fmt self rule_data rid)),
      sent @ [put_request fmt self rule_data rid])"
proof (cases "net sent (put_request fmt self rule_data rid)")
  case (RequestException e)
  then show ?thesis
    by (simp add: update_rule_def update_outcome_def send_def put_request_def Let_def)
next
  case (Response response)
  then show ?thesis
    by (cases "json_body response")
       (auto simp: update_rule_def update_outcome_def send_def put_request_def Let_def
          error_message_ranked split: json.splits)
qed

lemma deploy_rule_updates:
  assumes "read file = Parsed (JObj d)" and "clean_rule_json d = Inr cleaned"
    and "fst (search_rule_by_title self net (document_title d (stem file)) sent)
           = \<lparr>exists = True, rule_id = rid\<rparr>"
  shows "deploy_rule fmt exc self net read file sent =
     (update_outcome fmt rid
        (net (sent @ [search_request self]) (put_request fmt self cleaned rid)),
      sent @ [search_request self, put_request fmt self cleaned rid])"
  using assms(3)
  by (simp add: deploy_rule_parsed[of read "file" d cleaned, OF assms(1,2)] update_rule_result)

lemma record_outcome_counts:
  "successful (record_outcome file outcome res) + failed (record_outcome file outcome res)
     = successful res + failed res + 1"
  "total (record_outcome file outcome res) = total res"
  "successful res = created res + updated res \<Longrightarrow>
   successful (record_outcome file outcome res)
     = created (record_outcome file outcome res) + updated (record_outcome file outcome res)"
  "length (failed_rules res) = failed res \<Longrightarrow>
   length (failed_rules (record_outcome file outcome res)) = failed (record_outcome file outcome res)"
  by (cases outcome; simp add: record_outcome_def)+

lemma deploy_files_counts:
  assumes "successful res = created res + updated res"
    and "length (failed_rules res) = failed res"
  shows "successful (fst (deploy_files deploy files res sent))
           + failed (fst (deploy_files deploy files res sent))
           = successful res + failed res + length files \<and>
         total (fst (deploy_files deploy files res sent)) = total res \<and>
         successful (fst (deploy_files deploy files res sent))
           = created (fst (deploy_files deploy files res sent))
             + updated (fst (deploy_files deploy files res sent)) \<and>
         length (failed_rules (fst (deploy_files deploy files res sent)))
           = failed (fst (deploy_files deploy files res sent))"
  using assms
proof (induction files arbitrary: res sent)
  case Nil
  then show ?case by simp
next
  case (Cons f fs)
  obtain outcome sent' where d: "deploy f sent = (outcome, sent')"
    by (cases "deploy f sent")
  note IH = Cons.IH[of "record_outcome f outcome res" sent',
      OF record_outcome_counts(3)[OF Cons.prems(1)] record_outcome_counts(4)[OF Cons.prems(2)]]
  then show ?case
    by (simp add: d record_outcome_counts(1,2))
qed

lemma clean_doc_exported_title:
  "document_title doc_exported (stem file_example) = JStr ''Brute force''"
  by (simp add: document_title_def doc_exported_def)

lemma search_example_brute_force:
  "fst (search_rule_by_title deployer_example (net_update_rejected response)
          (JStr ''Brute force'') []) = \<lparr>exists = True, rule_id = JStr ''r-42''\<rparr>"
  by (simp add: search_rule_by_title_def send_def deployer_example_simps scripted_net_def
      net_update_rejected_def listing_def remote_rule_def search_in_response_def seq_def)

lemma net_update_rejected_put:
  "net_update_rejected response [search_request deployer_example]
     (put_request no_fmt deployer_example doc_cleaned (JStr ''r-42'')) = Response response"
  by (simp add: net_update_rejected_def scripted_net_def put_request_def py_str_def
      deployer_example_simps)

lemma deploy_example:
  "deploy_rule no_fmt no_exc deployer_example (net_update_rejected response) read_example
     file_example [] =
     (update_outcome no_fmt (JStr ''r-42'') (Response response),
      [search_request deployer_example,
       put_request no_fmt deployer_example doc_cleaned (JStr ''r-42'')])"
proof -
  have r: "read_example file_example = Parsed (JObj doc_exported)"
    by (simp add: read_example_def file_example_def)
  have s: "fst (search_rule_by_title deployer_example (net_update_rejected response)
              (document_title doc_exported (stem file_example)) [])
           = \<lparr>exists = True, rule_id = JStr ''r-42''\<rparr>"
    by (simp add: clean_doc_exported_title search_example_brute_force)
  from deploy_rule_updates[of read_example "file_example" doc_exported doc_cleaned
      deployer_example "net_update_rejected response" "[]" "JStr ''r-42''" no_fmt no_exc,
      OF r clean_rule_json_doc_exported s]
  show ?thesis by (simp add: net_update_rejected_put)
qed

text \<open>
  C7 (as stated: a non-2xx answer gives a failure whose message comes from the body's
  \<^verbatim>\<open>message\<close>, \<^verbatim>\<open>error\<close> or \<^verbatim>\<open>errorMessage\<close>, or is the generic no-message text)
  fails when the answer has no JSON body: \<^verbatim>\<open>response.json()\<close> raises and the message
  is \<^verbatim>\<open>Update failed with HTTP\<close> and the status (which the rendering of the examples
  shows as \<open>?\<close>).
\<close>

theorem update_message_counterexample:
  "deploy_rule no_fmt no_exc deployer_example
     (net_update_rejected \<lparr>status_code = 500, json_body = None\<rparr>) read_example file_example []
   = ((False, ''Update failed with HTTP ?''),
      [search_request deployer_example,
       put_request no_fmt deployer_example doc_cleaned (JStr ''r-42'')]) \<and>
   ''Update failed with HTTP ?'' \<noteq> ''Update failed: No error message provided''"
  by (simp add: deploy_example update_outcome_def no_fmt_def)

text \<open>
  C7 (amended). When the search finds a rule with id \<open>rid\<close> for a document,
  \<open>deploy_rule\<close> sends, after the search request, exactly one request: a PUT of the
  cleaned document to the update endpoint followed by \<open>rid\<close>; there is no create call,
  no retry and no other endpoint. A 2xx answer gives a success reporting \<open>rid\<close>. A
  non-2xx answer gives a failure: when its body is a JSON mapping, the message is the
  first of \<^verbatim>\<open>message\<close>, \<^verbatim>\<open>error\<close>, \<^verbatim>\<open>errorMessage\<close> with a true (non-empty) value,
  or \<^verbatim>\<open>No error message provided\<close>; when its body is not a JSON mapping, the message
  names the HTTP status. A transport failure gives a failure with the exception's text.
\<close>

theorem update_existing_rule:
  "read file = Parsed (JObj d) \<and> clean_rule_json d = Inr cleaned \<and>
   fst (search_rule_by_title self net (document_title d (stem file)) sent)
     = \<lparr>exists = True, rule_id = rid\<rparr> \<longrightarrow>
   deploy_rule fmt exc self net read file sent =
     (update_outcome fmt rid
        (net (sent @ [search_request self]) (put_request fmt self cleaned rid)),
      sent @ [search_request self, put_request fmt self cleaned rid])"
proof (intro impI, elim conjE)
  assume "read file = Parsed (JObj d)" "clean_rule_json d = Inr cleaned"
    "fst (search_rule_by_title self net (document_title d (stem file)) sent)
       = \<lparr>exists = True, rule_id = rid\<rparr>"
  then show "deploy_rule fmt exc self net read file sent =
     (update_outcome fmt rid
        (net (sent @ [search_request self]) (put_request fmt self cleaned rid)),
      sent @ [search_request self, put_request fmt self cleaned rid])"
    by (rule deploy_rule_updates)
qed

theorem update_existing_rule_witness:
  "deploy_rule no_fmt no_exc deployer_example
     (net_update_rejected
        \<lparr>status_code = 400,
          json_body = Some (JObj [(''message'', JStr []), (''error'', JStr ''Bad threshold''),
                                  (''errorMessage'', JStr ''ignored'')])\<rparr>)
     read_example file_example []
   = ((False, ''Update failed: Bad threshold''),
      [search_request deployer_example,
       put_request no_fmt deployer_example doc_cleaned (JStr ''r-42'')]) \<and>
   deploy_rule no_fmt no_exc deployer_example
     (net_update_rejected \<lparr>status_code = 200, json_body = Some (JObj [])\<rparr>)
     read_example file_example []
   = ((True, ''Updated successfully (ID: r-42)''),
      [search_request deployer_example,
       put_request no_fmt deployer_example doc_cleaned (JStr ''r-42'')])"
  using update_existing_rule[of read_example "file_example" doc_exported doc_cleaned
      deployer_example
      "net_update_rejected
        \<lparr>status_code = 400,
          json_body = Some (JObj [(''message'', JStr []), (''error'', JStr ''Bad threshold''),
                                  (''errorMessage'', JStr ''ignored'')])\<rparr>"
      "[]" "JStr ''r-42''" no_fmt no_exc]
    update_existing_rule[of read_example "file_example" doc_exported doc_cleaned
      deployer_example
      "net_update_rejected \<lparr>status_code = 200, json_body = Some (JObj [])\<rparr>"
      "[]" "JStr ''r-42''" no_fmt no_exc]
  by (simp add: deploy_example update_outcome_def ranked_message_def py_str_def)

text \<open>
  C10. The summary of \<open>deploy_all_rules\<close>: the total is the successes plus the failures,
  the successes are the created plus the updated, and the list of failed rules has as
  many entries as there are failures. The same holds of the loop for every way of
  deploying one file, that is for every sequence of outcomes.
\<close>

theorem deploy_all_rules_summary:
  "(let r = fst (deploy_all_rules fmt exc self net read dir_exists rule_files sent) in
      total r = successful r + failed r \<and> successful r = created r + updated r \<and>
      length (failed_rules r) = failed r) \<and>
   (let r = fst (deploy_files deploy rule_files (no_results\<lparr>total := length rule_files\<rparr>) sent) in
      total r = successful r + failed r \<and> successful r = created r + updated r \<and>
      length (failed_rules r) = failed r)"
proof -
  have loop: "total (fst (deploy_files dp rule_files (no_results\<lparr>total := length rule_files\<rparr>) sent))
        = successful (fst (deploy_files dp rule_files (no_results\<lparr>total := length rule_files\<rparr>) sent))
          + failed (fst (deploy_files dp rule_files (no_results\<lparr>total := length rule_files\<rparr>) sent)) \<and>
      successful (fst (deploy_files dp rule_files (no_results\<lparr>total := length rule_files\<rparr>) sent))
        = created (fst (deploy_files dp rule_files (no_results\<lparr>total := length rule_files\<rparr>) sent))
          + updated (fst (deploy_files dp rule_files (no_results\<lparr>total := length rule_files\<rparr>) sent)) \<and>
      length (failed_rules (fst (deploy_files dp rule_files (no_results\<lparr>total := length rule_files\<rparr>) sent)))
        = failed (fst (deploy_files dp rule_files (no_results\<lparr>total := length rule_files\<rparr>) sent))"
    for dp
  proof -
    have a: "successful (no_results\<lparr>total := length rule_files\<rparr>)
        = created (no_results\<lparr>total := length rule_files\<rparr>)
          + updated (no_results\<lparr>total := length rule_files\<rparr>)"
      and b: "length (failed_rules (no_results\<lparr>total := length rule_files\<rparr>))
        = failed (no_results\<lparr>total := length rule_files\<rparr>)"
      and c: "successful (no_results\<lparr>total := length rule_files\<rparr>)
          + failed (no_results\<lparr>total := length rule_files\<rparr>) + length rule_files
        = total (no_results\<lparr>total := length rule_files\<rparr>)"
      by (simp_all add: no_results_def)
    from deploy_files_counts[OF a b, of dp rule_files sent] c show ?thesis by auto
  qed
  have first: "let r = fst (deploy_all_rules fmt exc self net read dir_exists rule_files sent) in
      total r = successful r + failed r \<and> successful r = created r + updated r \<and>
      length (failed_rules r) = failed r"
  proof (cases "\<not> dir_exists \<or> rule_files = []")
    case True
    then have "fst (deploy_all_rules fmt exc self net read dir_exists rule_files sent) = no_results"
      by (auto simp: deploy_all_rules_def)
    then show ?thesis by (simp add: no_results_def)
  next
    case False
    then have "fst (deploy_all_rules fmt exc self net read dir_exists rule_files sent) =
        fst (deploy_files (deploy_rule fmt exc self net read) rule_files
               (no_results\<lparr>total := length rule_files\<rparr>) sent)"
      by (auto simp: deploy_all_rules_def)
    then show ?thesis
      unfolding Let_def using loop[of "deploy_rule fmt exc self net read"] by simp
  qed
  from first loop[of deploy] show ?thesis unfolding Let_def by (intro conjI) simp_all
qed

theorem deploy_all_rules_summary_witness:
  "fst (deploy_all_rules no_fmt no_exc deployer_example
          (net_update_rejected \<lparr>status_code = 200, json_body = Some (JObj [])\<rparr>)
          read_example True [file_example, file_missing] [])
   = \<lparr>total = 2, successful = 1, failed = 1, created = 0, updated = 1,
      failed_rules =
        [(''missing.json'',
          ''Unexpected error processing missing: No such file or directory'')]\<rparr>"
  using deploy_all_rules_summary[of no_fmt no_exc deployer_example
      "net_update_rejected \<lparr>status_code = 200, json_body = Some (JObj [])\<rparr>"
      read_example True "[file_example, file_missing]" "[]"]
  by (simp add: deploy_all_rules_def deploy_example update_outcome_def py_str_def
      record_outcome_def no_results_def)
     (simp add: deploy_rule_def read_example_def file_missing_def)

end
